theory Spec2Isabelle
  imports Complex_Main
begin

text \<open>
  A model of two parts of the form builder: the reducer of the editor
  (\<open>builderReducer\<close> of the FormBuilder component) and the handler that validates and
  stores a submitted response (\<open>POST\<close> of the responses route). Record fields carry a
  short prefix of their record (\<open>f_id\<close> for \<open>field.id\<close>, \<open>d_type\<close> for the stored
  field's \<open>type\<close>, ...), since several records of the source share field names.
\<close>

section \<open>JavaScript values shared by both parts\<close>

text \<open>
  A JavaScript number is an IEEE double. A finite value is carried as the rational it
  denotes (the sign of zero is not kept); the two infinities and NaN are separate
  constructors.
\<close>

datatype jsnum = Fin rat | PInf | NInf | NaN

fun Number_isFinite :: "jsnum \<Rightarrow> bool" where
  "Number_isFinite (Fin _) = True"
| "Number_isFinite _ = False"

text \<open>
  Strings are lists of code units below 256. \<open>isWhiteSpace\<close> is the ECMAScript set
  WhiteSpace + LineTerminator restricted to that range (TAB, LF, VT, FF, CR, SP, NBSP):
  what \<open>String.prototype.trim\<close> strips and what \<open>\s\<close> matches.
\<close>

definition isWhiteSpace :: "char \<Rightarrow> bool" where
  "isWhiteSpace c \<longleftrightarrow>
     c \<in> set [CHR 0x09, CHR 0x0A, CHR 0x0B, CHR 0x0C, CHR 0x0D, CHR 0x20, CHR 0xA0]"

definition js_trim :: "string \<Rightarrow> string" where
  "js_trim s = rev (dropWhile isWhiteSpace (rev (dropWhile isWhiteSpace s)))"

text \<open>\<open>Array.prototype.findIndex\<close>: the first index whose element satisfies the
  predicate; \<open>None\<close> stands for the result -1.\<close>

fun findIndex :: "('a \<Rightarrow> bool) \<Rightarrow> 'a list \<Rightarrow> nat option" where
  "findIndex P [] = None"
| "findIndex P (x # xs) =
     (if P x then Some 0 else map_option Suc (findIndex P xs))"

text \<open>\<open>xs.splice(i, 1)\<close> on a copy (the list without position \<open>i\<close>) and
  \<open>xs.splice(i, 0, x)\<close> (insertion before position \<open>i\<close>; a start beyond the
  length is clamped to the length, as \<open>take\<close> and \<open>drop\<close> do).\<close>

definition splice_remove :: "nat \<Rightarrow> 'a list \<Rightarrow> 'a list" where
  "splice_remove i xs = take i xs @ drop (Suc i) xs"

definition splice_insert :: "nat \<Rightarrow> 'a \<Rightarrow> 'a list \<Rightarrow> 'a list" where
  "splice_insert i x xs = take i xs @ x # drop i xs"

section \<open>The builder state (FormBuilder component)\<close>

datatype FieldType =
  FT_short_text | FT_long_text | FT_email | FT_number | FT_dropdown | FT_checkbox | FT_date

datatype ThemeMode = Light | Dark
datatype BuilderMode = Edit | Preview

datatype ThemeTag =
  Tag_formTitle | Tag_sectionTitle | Tag_label | Tag_helper | Tag_input | Tag_button

text \<open>The payload of UPDATE_THEME_TOKEN carries \<open>value: string | number\<close> for any key,
  so a token attribute holds either at run time.\<close>

datatype tokval = TStr string | TNum jsnum

record ThemeToken =
  tk_color :: tokval
  tk_fontSize :: tokval
  tk_fontFamily :: tokval
  tk_fontWeight :: tokval
  tk_background :: "tokval option"
  tk_borderColor :: "tokval option"

datatype TokenKey =
  K_color | K_fontSize | K_fontFamily | K_fontWeight | K_background | K_borderColor

record ThemeSnapshot =
  ts_background :: string
  ts_panel :: string
  ts_card :: string
  ts_border :: string
  ts_text :: string
  ts_muted :: string
  ts_tokens :: "ThemeTag \<Rightarrow> ThemeToken"

datatype SurfaceKey = S_background | S_panel | S_card | S_border | S_text | S_muted

record Palette =
  pal_light :: ThemeSnapshot
  pal_dark :: ThemeSnapshot

record ThemeState =
  th_mode :: ThemeMode
  th_palette :: Palette

record FieldOption =
  opt_id :: string
  opt_label :: string
  opt_value :: string

record FormField =
  f_id :: string
  f_type :: FieldType
  f_label :: string
  f_description :: "string option"
  f_placeholder :: "string option"
  f_required :: bool
  f_options :: "FieldOption list option"
  f_minLength :: "jsnum option"
  f_maxLength :: "jsnum option"
  f_min :: "jsnum option"
  f_max :: "jsnum option"
  f_step :: "jsnum option"

text \<open>\<open>Partial<FormField>\<close>: \<open>None\<close> is an absent key. For an optional attribute the
  inner option is the value, which may be \<open>undefined\<close>.\<close>

record FieldChanges =
  ch_id :: "string option"
  ch_type :: "FieldType option"
  ch_label :: "string option"
  ch_description :: "string option option"
  ch_placeholder :: "string option option"
  ch_required :: "bool option"
  ch_options :: "FieldOption list option option"
  ch_minLength :: "jsnum option option"
  ch_maxLength :: "jsnum option option"
  ch_min :: "jsnum option option"
  ch_max :: "jsnum option option"
  ch_step :: "jsnum option option"

record FormMeta =
  fm_title :: string
  fm_description :: string
  fm_submitLabel :: string

record MetaChanges =
  mc_title :: "string option"
  mc_description :: "string option"
  mc_submitLabel :: "string option"

record BuilderState =
  fields_list :: "FormField list"
  selectedFieldId :: "string option"
  formMeta :: FormMeta
  mode :: BuilderMode
  theme :: ThemeState

datatype Direction = Up | Down

datatype BuilderAction =
  ADD_FIELD FormField
| REMOVE_FIELD string
| DUPLICATE_FIELD string
| SELECT_FIELD "string option"
| UPDATE_FIELD string FieldChanges
| REORDER_FIELD string Direction
| UPDATE_FORM_META MetaChanges
| SET_MODE BuilderMode
| SET_THEME_MODE ThemeMode
| UPDATE_THEME_TOKEN ThemeTag TokenKey tokval
| UPDATE_THEME_SURFACE SurfaceKey string

subsection \<open>Helpers of the reducer\<close>

text \<open>\<open>{ ...field, ...changes }\<close>: every key present in \<open>changes\<close> overrides.\<close>

definition merge_field :: "FormField \<Rightarrow> FieldChanges \<Rightarrow> FormField" where
  "merge_field f c =
     \<lparr> f_id = (case ch_id c of None \<Rightarrow> f_id f | Some v \<Rightarrow> v),
       f_type = (case ch_type c of None \<Rightarrow> f_type f | Some v \<Rightarrow> v),
       f_label = (case ch_label c of None \<Rightarrow> f_label f | Some v \<Rightarrow> v),
       f_description = (case ch_description c of None \<Rightarrow> f_description f | Some v \<Rightarrow> v),
       f_placeholder = (case ch_placeholder c of None \<Rightarrow> f_placeholder f | Some v \<Rightarrow> v),
       f_required = (case ch_required c of None \<Rightarrow> f_required f | Some v \<Rightarrow> v),
       f_options = (case ch_options c of None \<Rightarrow> f_options f | Some v \<Rightarrow> v),
       f_minLength = (case ch_minLength c of None \<Rightarrow> f_minLength f | Some v \<Rightarrow> v),
       f_maxLength = (case ch_maxLength c of None \<Rightarrow> f_maxLength f | Some v \<Rightarrow> v),
       f_min = (case ch_min c of None \<Rightarrow> f_min f | Some v \<Rightarrow> v),
       f_max = (case ch_max c of None \<Rightarrow> f_max f | Some v \<Rightarrow> v),
       f_step = (case ch_step c of None \<Rightarrow> f_step f | Some v \<Rightarrow> v) \<rparr>"

definition merge_meta :: "FormMeta \<Rightarrow> MetaChanges \<Rightarrow> FormMeta" where
  "merge_meta m c =
     \<lparr> fm_title = (case mc_title c of None \<Rightarrow> fm_title m | Some v \<Rightarrow> v),
       fm_description = (case mc_description c of None \<Rightarrow> fm_description m | Some v \<Rightarrow> v),
       fm_submitLabel = (case mc_submitLabel c of None \<Rightarrow> fm_submitLabel m | Some v \<Rightarrow> v) \<rparr>"

text \<open>\<open>palette[mode]\<close> and \<open>{ ...palette, [mode]: snapshot }\<close>.\<close>

fun palette_get :: "Palette \<Rightarrow> ThemeMode \<Rightarrow> ThemeSnapshot" where
  "palette_get p Light = pal_light p"
| "palette_get p Dark = pal_dark p"

fun palette_set :: "Palette \<Rightarrow> ThemeMode \<Rightarrow> ThemeSnapshot \<Rightarrow> Palette" where
  "palette_set p Light s = p\<lparr>pal_light := s\<rparr>"
| "palette_set p Dark s = p\<lparr>pal_dark := s\<rparr>"

text \<open>\<open>{ ...token, [key]: value }\<close> and the read \<open>token[key]\<close> (\<open>None\<close> is
  \<open>undefined\<close>).\<close>

fun token_set :: "TokenKey \<Rightarrow> tokval \<Rightarrow> ThemeToken \<Rightarrow> ThemeToken" where
  "token_set K_color v t = t\<lparr>tk_color := v\<rparr>"
| "token_set K_fontSize v t = t\<lparr>tk_fontSize := v\<rparr>"
| "token_set K_fontFamily v t = t\<lparr>tk_fontFamily := v\<rparr>"
| "token_set K_fontWeight v t = t\<lparr>tk_fontWeight := v\<rparr>"
| "token_set K_background v t = t\<lparr>tk_background := Some v\<rparr>"
| "token_set K_borderColor v t = t\<lparr>tk_borderColor := Some v\<rparr>"

fun token_get :: "TokenKey \<Rightarrow> ThemeToken \<Rightarrow> tokval option" where
  "token_get K_color t = Some (tk_color t)"
| "token_get K_fontSize t = Some (tk_fontSize t)"
| "token_get K_fontFamily t = Some (tk_fontFamily t)"
| "token_get K_fontWeight t = Some (tk_fontWeight t)"
| "token_get K_background t = tk_background t"
| "token_get K_borderColor t = tk_borderColor t"

fun surface_set :: "SurfaceKey \<Rightarrow> string \<Rightarrow> ThemeSnapshot \<Rightarrow> ThemeSnapshot" where
  "surface_set S_background v s = s\<lparr>ts_background := v\<rparr>"
| "surface_set S_panel v s = s\<lparr>ts_panel := v\<rparr>"
| "surface_set S_card v s = s\<lparr>ts_card := v\<rparr>"
| "surface_set S_border v s = s\<lparr>ts_border := v\<rparr>"
| "surface_set S_text v s = s\<lparr>ts_text := v\<rparr>"
| "surface_set S_muted v s = s\<lparr>ts_muted := v\<rparr>"

text \<open>
  The clone's label:
  \<^verbatim>\<open>`${field.label} (copy)`.replace(/\(copy\) \(copy\)$/i, "(copy)").trim()\<close>.
  The pattern is anchored at the end of the string, so the only possible match is the
  last 13 code units; with the \<open>i\<close> flag each letter matches in either case.
\<close>

definition copy_copy_pattern :: "(char \<times> char) list" where
  "copy_copy_pattern =
     [(CHR ''('', CHR ''(''), (CHR ''c'', CHR ''C''), (CHR ''o'', CHR ''O''),
      (CHR ''p'', CHR ''P''), (CHR ''y'', CHR ''Y''), (CHR '')'', CHR '')''),
      (CHR '' '', CHR '' ''),
      (CHR ''('', CHR ''(''), (CHR ''c'', CHR ''C''), (CHR ''o'', CHR ''O''),
      (CHR ''p'', CHR ''P''), (CHR ''y'', CHR ''Y''), (CHR '')'', CHR '')'')]"

definition matches_ci :: "(char \<times> char) list \<Rightarrow> string \<Rightarrow> bool" where
  "matches_ci pat s \<longleftrightarrow> list_all2 (\<lambda>(a, b) c. c = a \<or> c = b) pat s"

definition replace_copy_copy :: "string \<Rightarrow> string" where
  "replace_copy_copy s =
     (let n = length s; k = length copy_copy_pattern in
      if k \<le> n \<and> matches_ci copy_copy_pattern (drop (n - k) s)
      then take (n - k) s @ ''(copy)'' else s)"

definition copy_label :: "string \<Rightarrow> string" where
  "copy_label l = js_trim (replace_copy_copy (l @ '' (copy)''))"

text \<open>
  \<open>createId\<close> draws a random identifier. The reducer takes the draws of one call as a
  function: \<open>createId k\<close> is what the \<open>k\<close>-th call returns. The object literal of the
  clone evaluates \<open>id\<close> first (draw 0) and then maps over the options in order
  (draws 1, 2, ...).
\<close>

definition clone_options :: "(nat \<Rightarrow> string) \<Rightarrow> FieldOption list \<Rightarrow> FieldOption list" where
  "clone_options createId opts =
     map (\<lambda>(k, option). option\<lparr>opt_id := createId (Suc k)\<rparr>) (enumerate 0 opts)"

definition clone_field :: "(nat \<Rightarrow> string) \<Rightarrow> FormField \<Rightarrow> FormField" where
  "clone_field createId field =
     field\<lparr> f_id := createId 0,
            f_label := copy_label (f_label field),
            f_options := map_option (clone_options createId) (f_options field) \<rparr>"

subsection \<open>builderReducer\<close>

fun builderReducer :: "(nat \<Rightarrow> string) \<Rightarrow> BuilderState \<Rightarrow> BuilderAction \<Rightarrow> BuilderState" where
  "builderReducer createId state (ADD_FIELD payload) =
     state\<lparr> fields_list := fields_list state @ [payload], selectedFieldId := Some (f_id payload) \<rparr>"
| "builderReducer createId state (REMOVE_FIELD pid) =
     state\<lparr> fields_list := filter (\<lambda>field. f_id field \<noteq> pid) (fields_list state),
            selectedFieldId :=
              (if selectedFieldId state = Some pid then None else selectedFieldId state) \<rparr>"
| "builderReducer createId state (DUPLICATE_FIELD pid) =
     (case find (\<lambda>item. f_id item = pid) (fields_list state) of
        None \<Rightarrow> state
      | Some field \<Rightarrow>
          (let clone = clone_field createId field in
           case findIndex (\<lambda>item. f_id item = f_id field) (fields_list state) of
             None \<Rightarrow> state\<lparr> fields_list := splice_insert 0 clone (fields_list state),
                             selectedFieldId := Some (f_id clone) \<rparr>
           | Some index \<Rightarrow>
               state\<lparr> fields_list := splice_insert (index + 1) clone (fields_list state),
                      selectedFieldId := Some (f_id clone) \<rparr>))"
| "builderReducer createId state (SELECT_FIELD sel) = state\<lparr> selectedFieldId := sel \<rparr>"
| "builderReducer createId state (UPDATE_FIELD pid changes) =
     state\<lparr> fields_list :=
       map (\<lambda>field. if f_id field = pid then merge_field field changes else field)
         (fields_list state) \<rparr>"
| "builderReducer createId state (REORDER_FIELD pid direction) =
     (case findIndex (\<lambda>field. f_id field = pid) (fields_list state) of
        None \<Rightarrow> state
      | Some index \<Rightarrow>
          (let targetIndex = (if direction = Up then int index - 1 else int index + 1) in
           if targetIndex < 0 \<or> targetIndex \<ge> int (length (fields_list state)) then state
           else
             (let removed = fields_list state ! index;
                  nextFields = splice_remove index (fields_list state)
              in state\<lparr> fields_list := splice_insert (nat targetIndex) removed nextFields \<rparr>)))"
| "builderReducer createId state (UPDATE_FORM_META payload) =
     state\<lparr> formMeta := merge_meta (formMeta state) payload \<rparr>"
| "builderReducer createId state (SET_MODE payload) = state\<lparr> mode := payload \<rparr>"
| "builderReducer createId state (SET_THEME_MODE payload) =
     state\<lparr> theme := (theme state)\<lparr> th_mode := payload \<rparr> \<rparr>"
| "builderReducer createId state (UPDATE_THEME_TOKEN tag key v) =
     (let current = palette_get (th_palette (theme state)) (th_mode (theme state)) in
      state\<lparr> theme := (theme state)\<lparr> th_palette :=
        palette_set (th_palette (theme state)) (th_mode (theme state))
          (current\<lparr> ts_tokens :=
             (ts_tokens current)(tag := token_set key v (ts_tokens current tag)) \<rparr>) \<rparr> \<rparr>)"
| "builderReducer createId state (UPDATE_THEME_SURFACE key v) =
     (let current = palette_get (th_palette (theme state)) (th_mode (theme state)) in
      state\<lparr> theme := (theme state)\<lparr> th_palette :=
        palette_set (th_palette (theme state)) (th_mode (theme state))
          (surface_set key v current) \<rparr> \<rparr>)"

subsection \<open>defaultThemePalette and initialState\<close>

definition fontOption0 :: string where
  "fontOption0 =
     ''system-ui, -apple-system, BlinkMacSystemFont, '' @ [CHR 0x22] @ ''Segoe UI''
       @ [CHR 0x22] @ '', sans-serif''"

definition plain_token :: "string \<Rightarrow> string \<Rightarrow> rat \<Rightarrow> ThemeToken" where
  "plain_token c sz w =
     \<lparr> tk_color = TStr c, tk_fontSize = TStr sz, tk_fontFamily = TStr fontOption0,
       tk_fontWeight = TNum (Fin w), tk_background = None, tk_borderColor = None \<rparr>"

definition boxed_token :: "string \<Rightarrow> string \<Rightarrow> rat \<Rightarrow> string \<Rightarrow> string \<Rightarrow> ThemeToken" where
  "boxed_token c sz w bg bd =
     (plain_token c sz w)\<lparr> tk_background := Some (TStr bg), tk_borderColor := Some (TStr bd) \<rparr>"

fun light_tokens :: "ThemeTag \<Rightarrow> ThemeToken" where
  "light_tokens Tag_formTitle = plain_token ''#0f172a'' ''1.875rem'' 600"
| "light_tokens Tag_sectionTitle = plain_token ''#0f172a'' ''1.25rem'' 600"
| "light_tokens Tag_label = plain_token ''#0f172a'' ''0.95rem'' 500"
| "light_tokens Tag_helper = plain_token ''#64748b'' ''0.85rem'' 400"
| "light_tokens Tag_input = boxed_token ''#0f172a'' ''1rem'' 500 ''#ffffff'' ''#cbd5f5''"
| "light_tokens Tag_button = boxed_token ''#ffffff'' ''1rem'' 600 ''#2563eb'' ''#2563eb''"

fun dark_tokens :: "ThemeTag \<Rightarrow> ThemeToken" where
  "dark_tokens Tag_formTitle = plain_token ''#f8fafc'' ''1.875rem'' 600"
| "dark_tokens Tag_sectionTitle = plain_token ''#f1f5f9'' ''1.25rem'' 600"
| "dark_tokens Tag_label = plain_token ''#e2e8f0'' ''0.95rem'' 500"
| "dark_tokens Tag_helper = plain_token ''#94a3b8'' ''0.85rem'' 400"
| "dark_tokens Tag_input = boxed_token ''#f8fafc'' ''1rem'' 500 ''#1f2937'' ''#334155''"
| "dark_tokens Tag_button = boxed_token ''#0f172a'' ''1rem'' 600 ''#38bdf8'' ''#38bdf8''"

definition defaultThemePalette :: Palette where
  "defaultThemePalette =
     \<lparr> pal_light =
         \<lparr> ts_background = ''#f1f5f9'', ts_panel = ''#ffffff'', ts_card = ''#ffffff'',
           ts_border = ''#e2e8f0'', ts_text = ''#0f172a'', ts_muted = ''#64748b'',
           ts_tokens = light_tokens \<rparr>,
       pal_dark =
         \<lparr> ts_background = ''#0f172a'', ts_panel = ''#111827'', ts_card = ''#111827'',
           ts_border = ''#1f2937'', ts_text = ''#f8fafc'', ts_muted = ''#94a3b8'',
           ts_tokens = dark_tokens \<rparr> \<rparr>"

definition blank_field :: "string \<Rightarrow> FieldType \<Rightarrow> string \<Rightarrow> bool \<Rightarrow> FormField" where
  "blank_field i t l r =
     \<lparr> f_id = i, f_type = t, f_label = l, f_description = None, f_placeholder = None,
       f_required = r, f_options = None, f_minLength = None, f_maxLength = None,
       f_min = None, f_max = None, f_step = None \<rparr>"

text \<open>\<open>initialState\<close>; its six identifiers are draws 0..5 of \<open>createId\<close>, in the
  order the literal evaluates them.\<close>

definition initialState :: "(nat \<Rightarrow> string) \<Rightarrow> BuilderState" where
  "initialState createId =
     \<lparr> fields_list =
         [ (blank_field (createId 0) FT_short_text ''Full name'' True)
             \<lparr> f_description := Some ''We use this to personalise your experience.'',
               f_placeholder := Some ''Jane Doe'', f_minLength := Some (Fin 2) \<rparr>,
           (blank_field (createId 1) FT_email ''Work email'' True)
             \<lparr> f_placeholder := Some ''name@company.com'',
               f_description := Some ''We will never share your email.'' \<rparr>,
           (blank_field (createId 2) FT_dropdown ''Project type'' True)
             \<lparr> f_description := Some ''Select the service you are interested in.'',
               f_options := Some
                 [ \<lparr> opt_id = createId 3, opt_label = ''Website redesign'', opt_value = ''website'' \<rparr>,
                   \<lparr> opt_id = createId 4, opt_label = ''Mobile app'', opt_value = ''mobile'' \<rparr>,
                   \<lparr> opt_id = createId 5, opt_label = ''Design system'',
                     opt_value = ''design-system'' \<rparr> ] \<rparr> ],
       selectedFieldId = None,
       formMeta =
         \<lparr> fm_title = ''Project inquiry'',
           fm_description =
             ''Tell us about your project. We will get back to you within two working days.'',
           fm_submitLabel = ''Send request'' \<rparr>,
       mode = Edit,
       theme = \<lparr> th_mode = Light, th_palette = defaultThemePalette \<rparr> \<rparr>"

section \<open>The response route (POST /api/forms/[formId]/responses)\<close>

subsection \<open>JSON and the built-ins the route calls\<close>

text \<open>A parsed JSON value; an object is its list of entries, each key once.\<close>

datatype json =
  JNull | JBool bool | JNum jsnum | JStr string | JArr "json list" | JObj "(string \<times> json) list"

text \<open>
  \<open>Number(string)\<close>, ECMAScript StringToNumber: surrounding white space is stripped; the
  empty string is 0; \<open>0x\<close>, \<open>0o\<close>, \<open>0b\<close> literals take no sign; a decimal literal is
  an optional sign and \<open>Infinity\<close>, or digits with an optional fraction and exponent;
  anything else is NaN. The mathematical value is rounded to the nearest double, ties to
  the even significand (\<open>round_to_double\<close>): a magnitude of at least
  \<open>2^1024 - 2^970\<close> becomes an infinity; below that the value is rounded to a multiple
  of \<open>2^(e - 52)\<close>, where \<open>2^e\<close> is the largest power of two not above the magnitude
  and \<open>e\<close> is at least \<open>-1022\<close> (the subnormal range).
\<close>

definition isDigit :: "char \<Rightarrow> bool" where
  "isDigit c \<longleftrightarrow> c \<in> set ''0123456789''"

definition digit_of :: "char \<Rightarrow> nat" where
  "digit_of c =
     (if isDigit c then of_char c - 48
      else if c \<in> set ''abcdef'' then of_char c - 87
      else of_char c - 55)"

definition digits_value :: "nat \<Rightarrow> string \<Rightarrow> nat" where
  "digits_value base ds = foldl (\<lambda>acc c. acc * base + digit_of c) 0 ds"

text \<open>The number of binary digits of a positive integer.\<close>

function bit_length :: "int \<Rightarrow> int" where
  "bit_length n = (if n \<le> 0 then 0 else bit_length (n div 2) + 1)"
  by pat_completeness auto
termination
  by (relation "measure nat") auto

declare bit_length.simps [simp del]

text \<open>For a positive \<open>v\<close>, the \<open>e\<close> with \<open>2^e \<le> v < 2^(e + 1)\<close>.\<close>

definition binary_exponent :: "rat \<Rightarrow> int" where
  "binary_exponent v =
     (if 1 \<le> v then bit_length \<lfloor>v\<rfloor> - 1 else - bit_length (\<lceil>1 / v\<rceil> - 1))"

definition pow2 :: "int \<Rightarrow> rat" where
  "pow2 e = (if 0 \<le> e then 2 ^ nat e else 1 / 2 ^ nat (- e))"

definition round_half_even :: "rat \<Rightarrow> int" where
  "round_half_even q =
     (let f = \<lfloor>q\<rfloor>; r = q - of_int f in
      if r < 1 / 2 then f else if 1 / 2 < r then f + 1
      else if even f then f else f + 1)"

definition nearest_double :: "rat \<Rightarrow> rat" where
  "nearest_double v =
     (let e = max (binary_exponent v) (- 1022); ulp = pow2 (e - 52)
      in of_int (round_half_even (v / ulp)) * ulp)"

definition round_to_double :: "rat \<Rightarrow> jsnum" where
  "round_to_double v =
     (if 2 ^ 1024 - 2 ^ 970 \<le> v then PInf
      else if v \<le> - (2 ^ 1024 - 2 ^ 970) then NInf
      else if v = 0 then Fin 0
      else if 0 < v then Fin (nearest_double v)
      else Fin (- nearest_double (- v)))"

definition radix_literal :: "nat \<Rightarrow> string \<Rightarrow> string \<Rightarrow> jsnum" where
  "radix_literal base allowed ds =
     (if ds \<noteq> [] \<and> list_all (\<lambda>c. c \<in> set allowed) ds
      then round_to_double (of_nat (digits_value base ds)) else NaN)"

definition parse_exponent :: "string \<Rightarrow> int option" where
  "parse_exponent r =
     (case r of
        [] \<Rightarrow> Some 0
      | c # t \<Rightarrow>
          if c = CHR ''e'' \<or> c = CHR ''E'' then
            (let neg = (case t of s # _ \<Rightarrow> s = CHR ''-'' | [] \<Rightarrow> False);
                 ds = (case t of s # u \<Rightarrow> if s = CHR ''+'' \<or> s = CHR ''-'' then u else t
                       | [] \<Rightarrow> [])
             in if ds \<noteq> [] \<and> list_all isDigit ds
                then Some (if neg then - int (digits_value 10 ds) else int (digits_value 10 ds))
                else None)
          else None)"

definition scale10 :: "rat \<Rightarrow> int \<Rightarrow> rat" where
  "scale10 m e = (if 0 \<le> e then m * 10 ^ nat e else m / 10 ^ nat (- e))"

definition unsigned_decimal :: "string \<Rightarrow> rat option" where
  "unsigned_decimal s =
     (let ip = takeWhile isDigit s;
          r1 = dropWhile isDigit s;
          dot = (case r1 of c # _ \<Rightarrow> c = CHR ''.'' | [] \<Rightarrow> False);
          fp = (if dot then takeWhile isDigit (tl r1) else []);
          r2 = (if dot then dropWhile isDigit (tl r1) else r1)
      in if ip = [] \<and> fp = [] then None
         else case parse_exponent r2 of
                None \<Rightarrow> None
              | Some e \<Rightarrow>
                  Some (scale10 (of_nat (digits_value 10 ip)
                                 + of_nat (digits_value 10 fp) / 10 ^ length fp) e))"

definition unsigned_literal :: "string \<Rightarrow> jsnum" where
  "unsigned_literal u =
     (if u = ''Infinity'' then PInf
      else case unsigned_decimal u of None \<Rightarrow> NaN | Some v \<Rightarrow> round_to_double v)"

fun negate :: "jsnum \<Rightarrow> jsnum" where
  "negate (Fin v) = Fin (- v)"
| "negate PInf = NInf"
| "negate NInf = PInf"
| "negate NaN = NaN"

definition js_Number :: "string \<Rightarrow> jsnum" where
  "js_Number s =
     (let t = js_trim s in
      if t = [] then Fin 0
      else if take 2 t = ''0x'' \<or> take 2 t = ''0X''
        then radix_literal 16 ''0123456789abcdefABCDEF'' (drop 2 t)
      else if take 2 t = ''0o'' \<or> take 2 t = ''0O''
        then radix_literal 8 ''01234567'' (drop 2 t)
      else if take 2 t = ''0b'' \<or> take 2 t = ''0B''
        then radix_literal 2 ''01'' (drop 2 t)
      else if hd t = CHR ''+'' then unsigned_literal (tl t)
      else if hd t = CHR ''-'' then negate (unsigned_literal (tl t))
      else unsigned_literal t)"

text \<open>
  \<open>emailRegex.test(value)\<close> for \<^verbatim>\<open>/^[^\s@]+@[^\s@]+\.[^\s@]+$/\<close>. The first class
  excludes \<open>@\<close>, so the local part is the longest prefix free of white space and \<open>@\<close>
  and must be followed by \<open>@\<close>; what follows must be free of white space and \<open>@\<close>
  and hold a dot that is neither its first nor its last code unit.
\<close>

definition email_char :: "char \<Rightarrow> bool" where
  "email_char c \<longleftrightarrow> \<not> isWhiteSpace c \<and> c \<noteq> CHR ''@''"

definition emailRegex_test :: "string \<Rightarrow> bool" where
  "emailRegex_test s =
     (let local = takeWhile email_char s; rest = dropWhile email_char s in
      local \<noteq> [] \<and>
      (case rest of
         [] \<Rightarrow> False
       | c # d \<Rightarrow> c = CHR ''@'' \<and> list_all email_char d \<and>
                  list_ex (\<lambda>i. d ! i = CHR ''.'') [1 ..< length d - 1]))"

text \<open>
  \<open>isValidDate\<close>. What \<open>Date.parse\<close> accepts beyond the ISO format is left to the
  engine by ECMAScript, so the route's functions take it as the parameter
  \<open>Date_parse\<close> (NaN for a string it does not parse).
\<close>

definition isValidDate :: "(string \<Rightarrow> jsnum) \<Rightarrow> string \<Rightarrow> bool" where
  "isValidDate Date_parse v = (if v = [] then False else Number_isFinite (Date_parse v))"

subsection \<open>The request schema (createResponseSchema)\<close>

datatype answer_value = VStr string | VArr "string list" | VNum jsnum | VBool bool | VNull

record Answer =
  a_fieldId :: string
  a_value :: answer_value

record Meta =
  m_fingerprint :: "string option"
  m_timezone :: "string option"
  m_userAgent :: "string option"

record Payload =
  p_completionMs :: "jsnum option"
  p_answers :: "Answer list"
  p_meta :: "Meta option"
  p_honey :: "string option"

text \<open>
  A zod issue: the path and the message. A message given in the schema is \<open>Custom\<close>; a
  message the library words itself is \<open>Builtin\<close> with the issue code.
\<close>

datatype pathseg = Key string | Idx nat
datatype zmsg = Custom string | Builtin string

record ZodIssue =
  z_path :: "pathseg list"
  z_message :: zmsg

definition zissue :: "pathseg list \<Rightarrow> zmsg \<Rightarrow> ZodIssue" where
  "zissue p m = \<lparr> z_path = p, z_message = m \<rparr>"

text \<open>An object's property: \<open>None\<close> is \<open>undefined\<close> (the key is absent).\<close>

definition property :: "(string \<times> json) list \<Rightarrow> string \<Rightarrow> json option" where
  "property kvs k = map_of kvs k"

text \<open>\<open>z.string().optional()\<close>.\<close>

fun optional_string :: "pathseg list \<Rightarrow> json option \<Rightarrow> ZodIssue list + string option" where
  "optional_string p None = Inr None"
| "optional_string p (Some (JStr s)) = Inr (Some s)"
| "optional_string p (Some _) = Inl [zissue p (Builtin ''invalid_type'')]"

text \<open>\<open>z.string().min(1, "Field ID is required")\<close>.\<close>

fun fieldId_schema :: "pathseg list \<Rightarrow> json option \<Rightarrow> ZodIssue list + string" where
  "fieldId_schema p (Some (JStr s)) =
     (if length s < 1 then Inl [zissue p (Custom ''Field ID is required'')] else Inr s)"
| "fieldId_schema p _ = Inl [zissue p (Builtin ''invalid_type'')]"

text \<open>\<open>z.union([z.string(), z.array(z.string()), z.number(), z.boolean(), z.null()])\<close>:
  the first member that accepts the input gives the value.\<close>

fun json_string :: "json \<Rightarrow> string option" where
  "json_string (JStr s) = Some s"
| "json_string _ = None"

fun value_schema :: "pathseg list \<Rightarrow> json option \<Rightarrow> ZodIssue list + answer_value" where
  "value_schema p (Some (JStr s)) = Inr (VStr s)"
| "value_schema p (Some (JArr items)) =
     (case those (map json_string items) of
        Some strings \<Rightarrow> Inr (VArr strings)
      | None \<Rightarrow> Inl [zissue p (Builtin ''invalid_union'')])"
| "value_schema p (Some (JNum n)) =
     (if n = NaN then Inl [zissue p (Builtin ''invalid_union'')] else Inr (VNum n))"
| "value_schema p (Some (JBool b)) = Inr (VBool b)"
| "value_schema p (Some JNull) = Inr VNull"
| "value_schema p _ = Inl [zissue p (Builtin ''invalid_union'')]"

text \<open>The issues of a parse result, and the values of a list of results when every one
  of them is valid.\<close>

definition issues_of :: "ZodIssue list + 'a \<Rightarrow> ZodIssue list" where
  "issues_of r = (case r of Inl is \<Rightarrow> is | Inr _ \<Rightarrow> [])"

fun all_valid :: "(ZodIssue list + 'a) list \<Rightarrow> 'a list option" where
  "all_valid [] = Some []"
| "all_valid (Inr v # rs) = map_option ((#) v) (all_valid rs)"
| "all_valid (Inl _ # rs) = None"

fun answerSchema :: "pathseg list \<Rightarrow> json \<Rightarrow> ZodIssue list + Answer" where
  "answerSchema p (JObj kvs) =
     (let f = fieldId_schema (p @ [Key ''fieldId'']) (property kvs ''fieldId'');
          v = value_schema (p @ [Key ''value'']) (property kvs ''value'')
      in case (f, v) of
           (Inr fid, Inr val) \<Rightarrow> Inr \<lparr> a_fieldId = fid, a_value = val \<rparr>
         | _ \<Rightarrow> Inl (issues_of f @ issues_of v))"
| "answerSchema p _ = Inl [zissue p (Builtin ''invalid_type'')]"

text \<open>\<open>z.array(answerSchema).min(1, "At least one answer is required")\<close>: the length
  check is recorded and the elements are parsed all the same.\<close>

fun answers_schema :: "pathseg list \<Rightarrow> json option \<Rightarrow> ZodIssue list + Answer list" where
  "answers_schema p (Some (JArr items)) =
     (let rs = map (\<lambda>(i, item). answerSchema (p @ [Idx i]) item) (enumerate 0 items);
          tooSmall =
            (if length items < 1 then [zissue p (Custom ''At least one answer is required'')]
             else [])
      in case (tooSmall, all_valid rs) of
           ([], Some answers) \<Rightarrow> Inr answers
         | _ \<Rightarrow> Inl (tooSmall @ concat (map issues_of rs)))"
| "answers_schema p _ = Inl [zissue p (Builtin ''invalid_type'')]"

text \<open>\<open>z.number().int().positive().max(1000 * 60 * 30).optional()\<close>: every failing
  check records its issue.\<close>

fun completionMs_schema :: "pathseg list \<Rightarrow> json option \<Rightarrow> ZodIssue list + jsnum option" where
  "completionMs_schema p None = Inr None"
| "completionMs_schema p (Some (JNum n)) =
     (if n = NaN then Inl [zissue p (Builtin ''invalid_type'')]
      else
        (let issues =
           (if (case n of Fin r \<Rightarrow> r \<in> \<int> | _ \<Rightarrow> False) then []
            else [zissue p (Builtin ''invalid_type'')])
           @ (if (case n of Fin r \<Rightarrow> 0 < r | PInf \<Rightarrow> True | _ \<Rightarrow> False) then []
              else [zissue p (Builtin ''too_small'')])
           @ (if (case n of Fin r \<Rightarrow> r \<le> 1000 * 60 * 30 | NInf \<Rightarrow> True | _ \<Rightarrow> False) then []
              else [zissue p (Builtin ''too_big'')])
         in if issues = [] then Inr (Some n) else Inl issues))"
| "completionMs_schema p (Some _) = Inl [zissue p (Builtin ''invalid_type'')]"

fun meta_schema :: "pathseg list \<Rightarrow> json option \<Rightarrow> ZodIssue list + Meta option" where
  "meta_schema p None = Inr None"
| "meta_schema p (Some (JObj kvs)) =
     (let f = optional_string (p @ [Key ''fingerprint'']) (property kvs ''fingerprint'');
          t = optional_string (p @ [Key ''timezone'']) (property kvs ''timezone'');
          u = optional_string (p @ [Key ''userAgent'']) (property kvs ''userAgent'')
      in case (f, t, u) of
           (Inr fingerprint, Inr timezone, Inr userAgent) \<Rightarrow>
             Inr (Some \<lparr> m_fingerprint = fingerprint, m_timezone = timezone,
                          m_userAgent = userAgent \<rparr>)
         | _ \<Rightarrow> Inl (issues_of f @ issues_of t @ issues_of u))"
| "meta_schema p (Some _) = Inl [zissue p (Builtin ''invalid_type'')]"

text \<open>\<open>createResponseSchema.safeParse(json)\<close>: \<open>Inl\<close> is the failure with its issues,
  \<open>Inr\<close> the parsed data. Every property is parsed and the issues of all of them are
  collected; the parse succeeds when every property is valid.\<close>

fun createResponseSchema :: "json \<Rightarrow> ZodIssue list + Payload" where
  "createResponseSchema (JObj kvs) =
     (let c = completionMs_schema [Key ''completionMs''] (property kvs ''completionMs'');
          a = answers_schema [Key ''answers''] (property kvs ''answers'');
          m = meta_schema [Key ''meta''] (property kvs ''meta'');
          h = optional_string [Key ''honey''] (property kvs ''honey'')
      in case (c, a, m, h) of
           (Inr completionMs, Inr answers, Inr meta, Inr honey) \<Rightarrow>
             Inr \<lparr> p_completionMs = completionMs, p_answers = answers, p_meta = meta,
                   p_honey = honey \<rparr>
         | _ \<Rightarrow> Inl (issues_of c @ issues_of a @ issues_of m @ issues_of h))"
| "createResponseSchema _ = Inl [zissue [] (Builtin ''invalid_type'')]"

subsection \<open>The stored form and the validation of the answers\<close>

text \<open>A field as the route selects it: \<open>type\<close> is compared with string literals and has a
  default branch; \<open>options\<close> is a nullable JSON column.\<close>

record DbField =
  d_id :: string
  d_type :: string
  d_required :: bool
  d_options :: "json option"
  d_sortOrder :: int

record Issue =
  i_fieldId :: string
  i_message :: string

record PersistAnswer =
  pa_fieldId :: string
  pa_value :: answer_value

definition issue :: "string \<Rightarrow> string \<Rightarrow> Issue" where
  "issue fid m = \<lparr> i_fieldId = fid, i_message = m \<rparr>"

text \<open>\<open>parseOptions\<close>: the string \<open>value\<close>s of the entries that are objects with a
  \<open>value\<close> key; \<open>filter(Boolean)\<close> drops \<open>null\<close> and the empty string.\<close>

fun option_value :: "json \<Rightarrow> string option" where
  "option_value (JObj kvs) =
     (case property kvs ''value'' of Some (JStr s) \<Rightarrow> Some s | _ \<Rightarrow> None)"
| "option_value _ = None"

fun parseOptions :: "json option \<Rightarrow> string list" where
  "parseOptions (Some (JArr raw)) =
     filter (\<lambda>v. v \<noteq> []) (List.map_filter option_value raw)"
| "parseOptions _ = []"

fun ensureString :: "answer_value \<Rightarrow> string option" where
  "ensureString (VStr s) = Some s"
| "ensureString _ = None"

fun ensureStringArray :: "answer_value \<Rightarrow> string list option" where
  "ensureStringArray (VArr xs) = Some xs"
| "ensureStringArray _ = None"

text \<open>What the body of the \<open>forEach\<close> over the fields does for one field that has an
  answer: every path through the \<open>switch\<close> calls \<open>addIssue\<close> once, or \<open>pushAnswer\<close>
  once, or neither.\<close>

datatype outcome = AddIssue string | PushAnswer answer_value | Skip

definition text_case :: "bool \<Rightarrow> answer_value \<Rightarrow> outcome" where
  "text_case required rawValue =
     (let v = (case ensureString rawValue of Some s \<Rightarrow> js_trim s | None \<Rightarrow> []) in
      if required \<and> length v = 0 then AddIssue ''Response is required''
      else if \<not> required \<and> length v = 0 then Skip
      else PushAnswer (VStr v))"

definition email_case :: "bool \<Rightarrow> answer_value \<Rightarrow> outcome" where
  "email_case required rawValue =
     (let v = (case ensureString rawValue of Some s \<Rightarrow> js_trim s | None \<Rightarrow> []) in
      if required \<and> length v = 0 then AddIssue ''Email is required''
      else if length v > 0 \<and> \<not> emailRegex_test v then AddIssue ''Email format looks invalid''
      else if \<not> required \<and> length v = 0 then Skip
      else PushAnswer (VStr v))"

definition number_missing :: "bool \<Rightarrow> outcome" where
  "number_missing required =
     (if required then AddIssue ''Number is required''
      else AddIssue ''Number could not be parsed'')"

fun number_case :: "bool \<Rightarrow> answer_value \<Rightarrow> outcome" where
  "number_case required (VNum n) =
     (if Number_isFinite n then PushAnswer (VNum n) else number_missing required)"
| "number_case required (VStr s) =
     (let trimmed = js_trim s in
      if length trimmed = 0 then (if required then AddIssue ''Number is required'' else Skip)
      else
        (let parsed = js_Number trimmed in
         if Number_isFinite parsed then PushAnswer (VNum parsed)
         else number_missing required))"
| "number_case required _ = number_missing required"

definition dropdown_case :: "bool \<Rightarrow> string list \<Rightarrow> answer_value \<Rightarrow> outcome" where
  "dropdown_case required options rawValue =
     (let v = (case ensureString rawValue of Some s \<Rightarrow> s | None \<Rightarrow> []) in
      if required \<and> length v = 0 then AddIssue ''Selection is required''
      else if length v = 0 then Skip
      else if length options > 0 \<and> v \<notin> set options then AddIssue ''Selected option is invalid''
      else PushAnswer (VStr v))"

definition checkbox_case :: "bool \<Rightarrow> string list \<Rightarrow> answer_value \<Rightarrow> outcome" where
  "checkbox_case required options rawValue =
     (case ensureStringArray rawValue of
        None \<Rightarrow> (if required then AddIssue ''At least one option is required'' else Skip)
      | Some vals \<Rightarrow>
          if length vals = 0
          then (if required then AddIssue ''At least one option is required'' else Skip)
          else if length options > 0
                  \<and> length (filter (\<lambda>entry. entry \<notin> set options) vals) > 0
          then AddIssue ''One or more options are invalid''
          else PushAnswer (VArr vals))"

definition date_case :: "(string \<Rightarrow> jsnum) \<Rightarrow> bool \<Rightarrow> answer_value \<Rightarrow> outcome" where
  "date_case Date_parse required rawValue =
     (let v = (case ensureString rawValue of Some s \<Rightarrow> s | None \<Rightarrow> []) in
      if required \<and> length v = 0 then AddIssue ''Date is required''
      else if length v > 0 \<and> \<not> isValidDate Date_parse v then AddIssue ''Date could not be parsed''
      else if \<not> required \<and> length v = 0 then Skip
      else PushAnswer (VStr v))"

definition field_switch :: "(string \<Rightarrow> jsnum) \<Rightarrow> DbField \<Rightarrow> answer_value \<Rightarrow> outcome" where
  "field_switch Date_parse field rawValue =
     (let options = parseOptions (d_options field); t = d_type field in
      if t = ''short_text'' \<or> t = ''long_text'' then text_case (d_required field) rawValue
      else if t = ''email'' then email_case (d_required field) rawValue
      else if t = ''number'' then number_case (d_required field) rawValue
      else if t = ''dropdown'' then dropdown_case (d_required field) options rawValue
      else if t = ''checkbox'' then checkbox_case (d_required field) options rawValue
      else if t = ''date'' then date_case Date_parse (d_required field) rawValue
      else AddIssue ''Unsupported field type'')"

definition process_field :: "(string \<Rightarrow> jsnum) \<Rightarrow> Answer list \<Rightarrow> DbField \<Rightarrow> outcome" where
  "process_field Date_parse answers field =
     (case find (\<lambda>entry. a_fieldId entry = d_id field) answers of
        None \<Rightarrow> (if d_required field then AddIssue ''Required field is missing'' else Skip)
      | Some answer \<Rightarrow> field_switch Date_parse field (a_value answer))"

text \<open>The \<open>forEach\<close> over \<open>form.fields\<close>, on the two arrays \<open>issues\<close> and
  \<open>answersToPersist\<close>.\<close>

fun fields_forEach ::
  "(string \<Rightarrow> jsnum) \<Rightarrow> Answer list \<Rightarrow> DbField list \<Rightarrow> Issue list \<times> PersistAnswer list
     \<Rightarrow> Issue list \<times> PersistAnswer list" where
  "fields_forEach Date_parse answers [] acc = acc"
| "fields_forEach Date_parse answers (field # rest) (issues, answersToPersist) =
     fields_forEach Date_parse answers rest
       (case process_field Date_parse answers field of
          AddIssue m \<Rightarrow> (issues @ [issue (d_id field) m], answersToPersist)
        | PushAnswer v \<Rightarrow>
            (issues, answersToPersist @ [\<lparr> pa_fieldId = d_id field, pa_value = v \<rparr>])
        | Skip \<Rightarrow> (issues, answersToPersist))"

text \<open>The first loop: answers that target a field outside the form
  (\<open>fieldMap.has\<close> is membership among the ids of \<open>form.fields\<close>).\<close>

definition foreign_issues :: "DbField list \<Rightarrow> Answer list \<Rightarrow> Issue list" where
  "foreign_issues formFields answers =
     map (\<lambda>answer. issue (a_fieldId answer) ''Field does not belong to this form'')
       (filter (\<lambda>answer. a_fieldId answer \<notin> set (map d_id formFields)) answers)"

text \<open>The last loop ("Ensure required answers are not silently skipped").\<close>

definition required_rescan :: "DbField list \<Rightarrow> PersistAnswer list \<Rightarrow> Issue list" where
  "required_rescan formFields answersToPersist =
     map (\<lambda>field. issue (d_id field) ''Required field is missing'')
       (filter (\<lambda>field. find (\<lambda>answer. pa_fieldId answer = d_id field) answersToPersist = None)
          (filter d_required formFields))"

text \<open>The three loops in the order of the route: the final \<open>issues\<close> and
  \<open>answersToPersist\<close>.\<close>

definition validate ::
  "(string \<Rightarrow> jsnum) \<Rightarrow> DbField list \<Rightarrow> Answer list \<Rightarrow> Issue list \<times> PersistAnswer list" where
  "validate Date_parse formFields answers =
     (let (issues, answersToPersist) =
            fields_forEach Date_parse answers formFields (foreign_issues formFields answers, [])
      in (issues @ required_rescan formFields answersToPersist, answersToPersist))"

text \<open>
  \<open>issues_added\<close> and \<open>answers_added\<close> are what the loop over the fields appends to
  each of the two arrays; the loop never reads the arrays, so its result is the start
  value followed by these (lemma \<open>fields_forEach_appends\<close>).
\<close>

fun outcome_issues :: "string \<Rightarrow> outcome \<Rightarrow> Issue list" where
  "outcome_issues fid (AddIssue m) = [issue fid m]"
| "outcome_issues fid _ = []"

fun outcome_answers :: "string \<Rightarrow> outcome \<Rightarrow> PersistAnswer list" where
  "outcome_answers fid (PushAnswer v) = [\<lparr> pa_fieldId = fid, pa_value = v \<rparr>]"
| "outcome_answers fid _ = []"

definition issues_added :: "(string \<Rightarrow> jsnum) \<Rightarrow> Answer list \<Rightarrow> DbField list \<Rightarrow> Issue list" where
  "issues_added Date_parse answers formFields =
     concat (map (\<lambda>field. outcome_issues (d_id field) (process_field Date_parse answers field))
               formFields)"

definition answers_added ::
  "(string \<Rightarrow> jsnum) \<Rightarrow> Answer list \<Rightarrow> DbField list \<Rightarrow> PersistAnswer list" where
  "answers_added Date_parse answers formFields =
     concat (map (\<lambda>field. outcome_answers (d_id field) (process_field Date_parse answers field))
               formFields)"

subsection \<open>POST\<close>

text \<open>
  What the handler reads from the request: the user of the session that
  \<open>ensureSession\<close> finds (\<open>None\<close> when there is none), the route parameter, the body
  (\<open>None\<close> when it is not JSON: \<open>request.json().catch(() => ({}))\<close>) and three headers.
\<close>

record Request =
  rq_sessionUser :: "string option"
  rq_formId :: string
  rq_body :: "json option"
  rq_forwardedFor :: "string option"
  rq_realIp :: "string option"
  rq_userAgent :: "string option"

record Form =
  form_id :: string
  form_ownerId :: string
  form_fields :: "DbField list"

record Metadata =
  md_ipAddress :: "string option"
  md_userAgent :: "string option"
  md_timezone :: "string option"
  md_fingerprint :: "string option"

text \<open>A response row with its answer rows, as \<open>prisma.formResponse.create\<close> receives
  them (the identifiers and the time stamp the database adds are left out).\<close>

record FormResponse =
  fr_formId :: string
  fr_completionMs :: "jsnum option"
  fr_metadata :: "Metadata option"
  fr_answers :: "PersistAnswer list"

record Database =
  db_forms :: "Form list"
  db_responses :: "FormResponse list"

text \<open>The responses of the handler. A schema failure lists each issue's path (kept as
  its segments; the handler joins them with a dot) and message; a validation failure lists
  each issue's field id and message.\<close>

datatype HttpResponse =
  Unauthorized_401
| SchemaFailed_422 "(pathseg list \<times> zmsg) list"
| Suspicious_400
| NotFound_404
| ValidationFailed_422 "(string \<times> string) list"
| Created_201 FormResponse

text \<open>\<open>forwardedFor?.split(",")[0]?.trim()\<close>.\<close>

definition ipAddress_of :: "string option \<Rightarrow> string option" where
  "ipAddress_of forwardedFor =
     map_option (\<lambda>h. js_trim (takeWhile (\<lambda>c. c \<noteq> CHR '','') h)) forwardedFor"

definition or_else :: "'a option \<Rightarrow> 'a option \<Rightarrow> 'a option" where
  "or_else a b = (case a of Some v \<Rightarrow> Some v | None \<Rightarrow> b)"

text \<open>The metadata object after the keys without a value are deleted; \<open>None\<close> when no
  key is left.\<close>

definition metadata_of :: "Request \<Rightarrow> Payload \<Rightarrow> Metadata option" where
  "metadata_of request payload =
     (let md = \<lparr> md_ipAddress = ipAddress_of (or_else (rq_forwardedFor request) (rq_realIp request)),
                 md_userAgent = or_else (Option.bind (p_meta payload) m_userAgent) (rq_userAgent request),
                 md_timezone = Option.bind (p_meta payload) m_timezone,
                 md_fingerprint = Option.bind (p_meta payload) m_fingerprint \<rparr>
      in if md_ipAddress md = None \<and> md_userAgent md = None \<and> md_timezone md = None
            \<and> md_fingerprint md = None
         then None else Some md)"

definition POST ::
  "(string \<Rightarrow> jsnum) \<Rightarrow> Database \<Rightarrow> Request \<Rightarrow> HttpResponse \<times> Database" where
  "POST Date_parse db request =
     (case rq_sessionUser request of
        None \<Rightarrow> (Unauthorized_401, db)
      | Some user \<Rightarrow>
          (case createResponseSchema (case rq_body request of Some j \<Rightarrow> j | None \<Rightarrow> JObj []) of
             Inl zissues \<Rightarrow>
               (SchemaFailed_422 (map (\<lambda>i. (z_path i, z_message i)) zissues), db)
           | Inr payload \<Rightarrow>
               if (case p_honey payload of Some h \<Rightarrow> length (js_trim h) > 0 | None \<Rightarrow> False)
               then (Suspicious_400, db)
               else
                 (case find (\<lambda>f. form_id f = rq_formId request \<and> form_ownerId f = user)
                         (db_forms db) of
                    None \<Rightarrow> (NotFound_404, db)
                  | Some form \<Rightarrow>
                      (let (issues, answersToPersist) =
                             validate Date_parse (form_fields form) (p_answers payload)
                       in if length issues > 0
                          then (ValidationFailed_422
                                  (map (\<lambda>i. (i_fieldId i, i_message i)) issues), db)
                          else
                            (let created =
                                   \<lparr> fr_formId = form_id form,
                                     fr_completionMs = p_completionMs payload,
                                     fr_metadata = metadata_of request payload,
                                     fr_answers = answersToPersist \<rparr>
                             in (Created_201 created,
                                 db\<lparr> db_responses := db_responses db @ [created] \<rparr>))))))"

section \<open>Concrete inputs\<close>

text \<open>A sequence of distinct identifiers, and the initial state built from it.\<close>

definition sample_createId :: "nat \<Rightarrow> string" where
  "sample_createId k = replicate (Suc k) CHR ''x''"

definition sample_state :: BuilderState where
  "sample_state = initialState sample_createId"

definition sample_changes :: FieldChanges where
  "sample_changes =
     \<lparr> ch_id = None, ch_type = None, ch_label = Some ''Renamed'', ch_description = Some None,
       ch_placeholder = None, ch_required = Some False, ch_options = None, ch_minLength = None,
       ch_maxLength = None, ch_min = None, ch_max = None, ch_step = None \<rparr>"

definition dark_state :: BuilderState where
  "dark_state = builderReducer sample_createId sample_state (SET_THEME_MODE Dark)"


definition dangling_state :: BuilderState where
  "dangling_state = builderReducer sample_createId sample_state (SELECT_FIELD (Some ''ghost''))"

definition no_dates :: "string \<Rightarrow> jsnum" where
  "no_dates s = NaN"

definition number_field :: "bool \<Rightarrow> DbField" where
  "number_field required =
     \<lparr> d_id = ''f1'', d_type = ''number'', d_required = required, d_options = None,
       d_sortOrder = 0 \<rparr>"

definition checkbox_field :: "bool \<Rightarrow> DbField" where
  "checkbox_field required =
     \<lparr> d_id = ''f1'', d_type = ''checkbox'', d_required = required,
       d_options = Some (JArr [JObj [(''value'', JStr ''a'')], JObj [(''value'', JStr ''b'')]]),
       d_sortOrder = 0 \<rparr>"

definition answer :: "string \<Rightarrow> answer_value \<Rightarrow> Answer" where
  "answer fid v = \<lparr> a_fieldId = fid, a_value = v \<rparr>"

definition sample_database :: "DbField list \<Rightarrow> Database" where
  "sample_database formFields =
     \<lparr> db_forms = [\<lparr> form_id = ''form1'', form_ownerId = ''u1'', form_fields = formFields \<rparr>],
       db_responses = [] \<rparr>"

definition sample_request :: "json \<Rightarrow> Request" where
  "sample_request answers =
     \<lparr> rq_sessionUser = Some ''u1'', rq_formId = ''form1'',
       rq_body = Some (JObj [(''answers'', answers)]),
       rq_forwardedFor = None, rq_realIp = None, rq_userAgent = None \<rparr>"

definition json_answer :: "string \<Rightarrow> json \<Rightarrow> json" where
  "json_answer fid v = JObj [(''fieldId'', JStr fid), (''value'', v)]"

definition foreign_message :: string where
  "foreign_message = ''Field does not belong to this form''"

definition short_text_field :: DbField where
  "short_text_field =
     \<lparr> d_id = ''f0'', d_type = ''short_text'', d_required = False, d_options = None,
       d_sortOrder = 0 \<rparr>"

section \<open>Properties of the builder reducer\<close>

subsection \<open>Locating a field and splicing\<close>

lemma findIndex_None_iff: "findIndex P xs = None \<longleftrightarrow> (\<forall>x\<in>set xs. \<not> P x)"
  by (induction xs) auto

lemma findIndex_SomeD:
  "findIndex P xs = Some i \<Longrightarrow> i < length xs \<and> P (xs ! i) \<and> (\<forall>j<i. \<not> P (xs ! j))"
proof (induction xs arbitrary: i)
  case Nil
  then show ?case by simp
next
  case (Cons x xs)
  show ?case
  proof (cases "P x")
    case True
    with Cons.prems show ?thesis by simp
  next
    case False
    with Cons.prems obtain k where k: "findIndex P xs = Some k" "i = Suc k"
      by auto
    from Cons.IH [OF k(1)] False k(2) show ?thesis
      by (auto simp: nth_Cons split: nat.splits)
  qed
qed

lemma findIndex_first:
  "i < length xs \<Longrightarrow> P (xs ! i) \<Longrightarrow> (\<forall>j<i. \<not> P (xs ! j)) \<Longrightarrow> findIndex P xs = Some i"
proof (induction xs arbitrary: i)
  case Nil
  then show ?case by simp
next
  case (Cons x xs)
  show ?case
  proof (cases i)
    case 0
    with Cons.prems show ?thesis by simp
  next
    case (Suc k)
    with Cons.prems have "\<not> P x" by auto
    moreover have "findIndex P xs = Some k"
      using Cons.prems Suc by (intro Cons.IH) auto
    ultimately show ?thesis using Suc by simp
  qed
qed

lemma findIndex_distinct:
  assumes "distinct (map f xs)" and "i < length xs"
  shows "findIndex (\<lambda>x. f x = f (xs ! i)) xs = Some i"
proof (rule findIndex_first)
  show "i < length xs" by fact
  show "f (xs ! i) = f (xs ! i)" by simp
  show "\<forall>j<i. f (xs ! j) \<noteq> f (xs ! i)"
  proof (intro allI impI)
    fix j assume "j < i"
    with nth_eq_iff_index_eq [OF assms(1), of j i] assms(2)
    show "f (xs ! j) \<noteq> f (xs ! i)" by simp
  qed
qed


lemma splice_swap_down:
  assumes "Suc i < length xs"
  shows "splice_insert (Suc i) (xs ! i) (splice_remove i xs) = xs[i := xs ! Suc i, Suc i := xs ! i]"
proof -
  from assms have "xs = take i xs @ xs ! i # xs ! Suc i # drop (Suc (Suc i)) xs"
    by (metis Cons_nth_drop_Suc Suc_lessD append_take_drop_id)
  then obtain as a b bs where xs: "xs = as @ a # b # bs" and len: "length as = i"
    and a: "xs ! i = a" and b: "xs ! Suc i = b"
    using assms by (metis Suc_lessD length_take min.absorb2 less_imp_le_nat)
  show ?thesis
    unfolding a b unfolding xs using len
    by (simp add: splice_insert_def splice_remove_def list_update_append nth_append)
qed

lemma splice_swap_up:
  assumes "Suc k < length xs"
  shows "splice_insert k (xs ! Suc k) (splice_remove (Suc k) xs) = xs[Suc k := xs ! k, k := xs ! Suc k]"
proof -
  from assms have "xs = take k xs @ xs ! k # xs ! Suc k # drop (Suc (Suc k)) xs"
    by (metis Cons_nth_drop_Suc Suc_lessD append_take_drop_id)
  then obtain as a b bs where xs: "xs = as @ a # b # bs" and len: "length as = k"
    and a: "xs ! k = a" and b: "xs ! Suc k = b"
    using assms by (metis Suc_lessD length_take min.absorb2 less_imp_le_nat)
  show ?thesis
    unfolding a b unfolding xs using len
    by (simp add: splice_insert_def splice_remove_def list_update_append nth_append)
qed

lemma reorder_located:
  assumes "findIndex (\<lambda>field. f_id field = pid) (fields_list S) = Some i"
  shows "builderReducer g S (REORDER_FIELD pid Up) =
           (if i = 0 then S
            else S\<lparr> fields_list := (fields_list S)[i := fields_list S ! (i - 1),
                                                   i - 1 := fields_list S ! i] \<rparr>)"
    and "builderReducer g S (REORDER_FIELD pid Down) =
           (if Suc i = length (fields_list S) then S
            else S\<lparr> fields_list := (fields_list S)[i := fields_list S ! Suc i,
                                                   Suc i := fields_list S ! i] \<rparr>)"
proof -
  from findIndex_SomeD [OF assms] have lt: "i < length (fields_list S)" by simp
  show "builderReducer g S (REORDER_FIELD pid Up) =
           (if i = 0 then S
            else S\<lparr> fields_list := (fields_list S)[i := fields_list S ! (i - 1),
                                                   i - 1 := fields_list S ! i] \<rparr>)"
  proof (cases i)
    case 0
    with assms show ?thesis by simp
  next
    case (Suc k)
    with lt have "Suc k < length (fields_list S)" by simp
    from splice_swap_up [OF this] assms Suc lt show ?thesis
      by (simp add: Let_def nat_diff_distrib)
  qed
  show "builderReducer g S (REORDER_FIELD pid Down) =
           (if Suc i = length (fields_list S) then S
            else S\<lparr> fields_list := (fields_list S)[i := fields_list S ! Suc i,
                                                   Suc i := fields_list S ! i] \<rparr>)"
  proof (cases "Suc i = length (fields_list S)")
    case True
    with assms show ?thesis by simp
  next
    case False
    with lt have "Suc i < length (fields_list S)" by simp
    from splice_swap_down [OF this] assms False lt show ?thesis
      by (simp add: Let_def nat_add_distrib)
  qed
qed

subsection \<open>REORDER_FIELD\<close>

lemma sample_state_ids:
  "map f_id (fields_list sample_state) = [''x'', ''xx'', ''xxx'']"
  by (simp add: sample_state_def initialState_def blank_field_def sample_createId_def
      numeral_2_eq_2)

lemma sample_state_length: "length (fields_list sample_state) = 3"
  using arg_cong [OF sample_state_ids, of length] by simp

text \<open>
  C7. REORDER_FIELD with the id of the field at position \<open>i\<close> (ids being unique within
  a form): direction up at the first position, direction down at the last position, and
  any id that no field has, return the state as it is; otherwise the field is exchanged
  with the neighbour before it (up) or after it (down), and nothing else in the state
  changes.
\<close>

theorem reorder_field_adjacent_swap:
  assumes "distinct (map f_id (fields_list S))" and "i < length (fields_list S)"
  shows "builderReducer g S (REORDER_FIELD (f_id (fields_list S ! i)) Up) =
           (if i = 0 then S
            else S\<lparr> fields_list := (fields_list S)[i := fields_list S ! (i - 1),
                                                   i - 1 := fields_list S ! i] \<rparr>)
       \<and> builderReducer g S (REORDER_FIELD (f_id (fields_list S ! i)) Down) =
           (if Suc i = length (fields_list S) then S
            else S\<lparr> fields_list := (fields_list S)[i := fields_list S ! Suc i,
                                                   Suc i := fields_list S ! i] \<rparr>)
       \<and> (\<forall>pid d. pid \<notin> set (map f_id (fields_list S)) \<longrightarrow>
             builderReducer g S (REORDER_FIELD pid d) = S)"
proof -
  have loc: "findIndex (\<lambda>field. f_id field = f_id (fields_list S ! i)) (fields_list S) = Some i"
    using assms by (rule findIndex_distinct)
  have absent: "builderReducer g S (REORDER_FIELD pid d) = S"
    if "pid \<notin> set (map f_id (fields_list S))" for pid d
  proof -
    from that have "findIndex (\<lambda>field. f_id field = pid) (fields_list S) = None"
      by (auto simp: findIndex_None_iff)
    then show ?thesis by simp
  qed
  from reorder_located [OF loc] absent show ?thesis by blast
qed

theorem reorder_field_adjacent_swap_witness:
  "distinct (map f_id (fields_list sample_state)) \<and> 1 < length (fields_list sample_state)
   \<and> builderReducer sample_createId sample_state
         (REORDER_FIELD (f_id (fields_list sample_state ! 1)) Up)
       = sample_state\<lparr> fields_list := (fields_list sample_state)
             [1 := fields_list sample_state ! 0, 0 := fields_list sample_state ! 1] \<rparr>
   \<and> builderReducer sample_createId sample_state
         (REORDER_FIELD (f_id (fields_list sample_state ! 1)) Down)
       = sample_state\<lparr> fields_list := (fields_list sample_state)
             [1 := fields_list sample_state ! 2, 2 := fields_list sample_state ! 1] \<rparr>
   \<and> ''ghost'' \<notin> set (map f_id (fields_list sample_state))
   \<and> builderReducer sample_createId sample_state (REORDER_FIELD ''ghost'' Up) = sample_state"
proof -
  have d: "distinct (map f_id (fields_list sample_state))"
    by (simp add: sample_state_ids)
  have l: "1 < length (fields_list sample_state)"
    by (simp add: sample_state_length)
  have g: "''ghost'' \<notin> set (map f_id (fields_list sample_state))"
    by (simp add: sample_state_ids)
  from reorder_field_adjacent_swap [OF d l, of sample_createId] d l g sample_state_length
  show ?thesis
    by (simp del: builderReducer.simps add: numeral_2_eq_2)
qed

subsection \<open>Actions that name a field the state does not have\<close>

lemma dangling_state_ids:
  "map f_id (fields_list dangling_state) = [''x'', ''xx'', ''xxx'']"
  by (simp add: dangling_state_def sample_state_ids)

lemma dangling_state_selected: "selectedFieldId dangling_state = Some ''ghost''"
  by (simp add: dangling_state_def)

lemma absent_filter: "pid \<notin> set (map f_id fs) \<Longrightarrow> filter (\<lambda>field. f_id field \<noteq> pid) fs = fs"
  by (induction fs) auto

lemma absent_map:
  "pid \<notin> set (map f_id fs) \<Longrightarrow>
     map (\<lambda>field. if f_id field = pid then merge_field field c else field) fs = fs"
  by (induction fs) auto

lemma absent_find: "pid \<notin> set (map f_id fs) \<Longrightarrow> find (\<lambda>item. f_id item = pid) fs = None"
  by (induction fs) auto

lemma absent_findIndex:
  "pid \<notin> set (map f_id fs) \<Longrightarrow> findIndex (\<lambda>item. f_id item = pid) fs = None"
  by (auto simp: findIndex_None_iff)

text \<open>
  C9, as stated, fails: SELECT_FIELD sets the selection to any id, and REMOVE_FIELD with
  that id, which no field has, resets the selection, so the result differs from the
  state it was applied to.
\<close>

theorem remove_absent_field_counterexample:
  "''ghost'' \<notin> set (map f_id (fields_list dangling_state))
   \<and> builderReducer sample_createId dangling_state (REMOVE_FIELD ''ghost'') \<noteq> dangling_state"
proof -
  have "selectedFieldId (builderReducer sample_createId dangling_state (REMOVE_FIELD ''ghost''))
          = None"
    by (simp add: dangling_state_selected)
  then have "builderReducer sample_createId dangling_state (REMOVE_FIELD ''ghost'') \<noteq> dangling_state"
    using dangling_state_selected by (metis option.distinct(1))
  then show ?thesis by (simp add: dangling_state_ids del: builderReducer.simps)
qed

text \<open>
  C9, amended. For an id that no field of the state has, DUPLICATE_FIELD, UPDATE_FIELD
  and REORDER_FIELD return the state as it is. REMOVE_FIELD returns it as it is unless
  the selection is that very id; then the selection becomes null and nothing else
  changes.
\<close>

theorem absent_field_actions_absorbed:
  assumes "pid \<notin> set (map f_id (fields_list S))"
  shows "builderReducer g S (DUPLICATE_FIELD pid) = S
       \<and> builderReducer g S (UPDATE_FIELD pid changes) = S
       \<and> builderReducer g S (REORDER_FIELD pid direction) = S
       \<and> builderReducer g S (REMOVE_FIELD pid) =
           (if selectedFieldId S = Some pid then S\<lparr> selectedFieldId := None \<rparr> else S)"
  using assms
  by (simp add: absent_filter absent_map absent_find absent_findIndex)

theorem absent_field_actions_absorbed_witness:
  "''ghost'' \<notin> set (map f_id (fields_list sample_state))
   \<and> builderReducer sample_createId sample_state (DUPLICATE_FIELD ''ghost'') = sample_state
   \<and> builderReducer sample_createId sample_state (UPDATE_FIELD ''ghost'' sample_changes) = sample_state
   \<and> builderReducer sample_createId sample_state (REORDER_FIELD ''ghost'' Down) = sample_state
   \<and> builderReducer sample_createId sample_state (REMOVE_FIELD ''ghost'') = sample_state"
proof -
  have g: "''ghost'' \<notin> set (map f_id (fields_list sample_state))"
    by (simp add: sample_state_ids)
  have s: "selectedFieldId sample_state = None"
    by (simp add: sample_state_def initialState_def)
  from absent_field_actions_absorbed [OF g, of sample_createId _ Down] g s
  show ?thesis by (simp del: builderReducer.simps)
qed

subsection \<open>UPDATE_THEME_TOKEN\<close>

text \<open>
  C8. UPDATE_THEME_TOKEN leaves the fields, the selection, the form meta data, the
  builder mode and the theme mode as they are; in dark mode the light snapshot is
  unchanged and in light mode the dark snapshot is unchanged; the active snapshot changes
  only in its token table, there only at the given tag, and that token only in the given
  attribute, which becomes the given value.
\<close>

theorem update_theme_token_frame:
  "(let S' = builderReducer g S (UPDATE_THEME_TOKEN tag key v);
        m = th_mode (theme S);
        old = palette_get (th_palette (theme S)) m;
        new = palette_get (th_palette (theme S')) m
    in fields_list S' = fields_list S \<and> selectedFieldId S' = selectedFieldId S
       \<and> formMeta S' = formMeta S \<and> mode S' = mode S \<and> th_mode (theme S') = m
       \<and> (m = Dark \<longrightarrow> pal_light (th_palette (theme S')) = pal_light (th_palette (theme S)))
       \<and> (m = Light \<longrightarrow> pal_dark (th_palette (theme S')) = pal_dark (th_palette (theme S)))
       \<and> new = old\<lparr> ts_tokens := (ts_tokens old)(tag := token_set key v (ts_tokens old tag)) \<rparr>
       \<and> (\<forall>tag'. tag' \<noteq> tag \<longrightarrow> ts_tokens new tag' = ts_tokens old tag')
       \<and> (\<forall>key'. key' \<noteq> key \<longrightarrow>
             token_get key' (ts_tokens new tag) = token_get key' (ts_tokens old tag))
       \<and> token_get key (ts_tokens new tag) = Some v)"
proof -
  have get_set: "token_get key (token_set key v t) = Some v" for t
    by (cases key) simp_all
  have get_other: "token_get key' (token_set key v t) = token_get key' t" if "key' \<noteq> key" for key' t
    using that by (cases key; cases key') simp_all
  show ?thesis
    by (cases "th_mode (theme S)") (simp_all add: Let_def get_set get_other)
qed

theorem update_theme_token_frame_witness:
  "th_mode (theme dark_state) = Dark
   \<and> pal_light (th_palette (theme (builderReducer sample_createId dark_state
          (UPDATE_THEME_TOKEN Tag_label K_color (TStr ''#ff0000'')))))
       = pal_light (th_palette (theme dark_state))
   \<and> th_mode (theme sample_state) = Light
   \<and> pal_dark (th_palette (theme (builderReducer sample_createId sample_state
          (UPDATE_THEME_TOKEN Tag_label K_color (TStr ''#ff0000'')))))
       = pal_dark (th_palette (theme sample_state))
   \<and> Tag_button \<noteq> Tag_label
   \<and> ts_tokens (pal_dark (th_palette (theme (builderReducer sample_createId dark_state
          (UPDATE_THEME_TOKEN Tag_label K_color (TStr ''#ff0000'')))))) Tag_button
       = ts_tokens (pal_dark (th_palette (theme dark_state))) Tag_button
   \<and> K_fontSize \<noteq> K_color
   \<and> token_get K_fontSize (ts_tokens (pal_dark (th_palette (theme
          (builderReducer sample_createId dark_state
             (UPDATE_THEME_TOKEN Tag_label K_color (TStr ''#ff0000'')))))) Tag_label)
       = token_get K_fontSize (ts_tokens (pal_dark (th_palette (theme dark_state))) Tag_label)"
proof -
  have d: "th_mode (theme dark_state) = Dark"
    by (simp add: dark_state_def)
  have l: "th_mode (theme sample_state) = Light"
    by (simp add: sample_state_def initialState_def)
  from update_theme_token_frame
         [of sample_createId dark_state Tag_label K_color "TStr ''#ff0000''"]
       update_theme_token_frame
         [of sample_createId sample_state Tag_label K_color "TStr ''#ff0000''"]
       d l
  show ?thesis
    by (simp add: Let_def del: builderReducer.simps)
qed

subsection \<open>DUPLICATE_FIELD\<close>

lemma copy_label_Name: "copy_label ''Name'' = ''Name (copy)''"
  by (simp add: copy_label_def replace_copy_copy_def copy_copy_pattern_def matches_ci_def
      js_trim_def isWhiteSpace_def)

text \<open>The label of a clone always ends with \<open>(copy)\<close> and has no leading white
  space, and cloning such a label gives the same label again.\<close>

lemma copy_not_white: "\<not> isWhiteSpace CHR ''(''" "\<not> isWhiteSpace CHR '')''"
  by (simp_all add: isWhiteSpace_def)

lemma js_trim_copy_suffix:
  "js_trim (y @ ''(copy)'') = dropWhile isWhiteSpace y @ ''(copy)''"
proof -
  have front: "dropWhile isWhiteSpace (y @ ''(copy)'') = dropWhile isWhiteSpace y @ ''(copy)''"
    by (simp add: dropWhile_append copy_not_white)
  have rear: "dropWhile isWhiteSpace (rev (z @ ''(copy)'')) = rev (z @ ''(copy)'')" for z
    by (simp add: copy_not_white)
  show ?thesis
    unfolding js_trim_def front rear by simp
qed

lemma replace_copy_copy_cases:
  "replace_copy_copy s = s \<or> (\<exists>t. replace_copy_copy s = t @ ''(copy)'')"
  by (simp add: replace_copy_copy_def Let_def)

lemma replace_copy_copy_suffix: "\<exists>y. replace_copy_copy (l @ '' (copy)'') = y @ ''(copy)''"
proof -
  have "l @ '' (copy)'' = (l @ '' '') @ ''(copy)''" by simp
  with replace_copy_copy_cases [of "l @ '' (copy)''"] show ?thesis by metis
qed

lemma copy_label_shape:
  "\<exists>x. copy_label l = x @ ''(copy)'' \<and> dropWhile isWhiteSpace x = x"
proof -
  from replace_copy_copy_suffix obtain y
    where "replace_copy_copy (l @ '' (copy)'') = y @ ''(copy)''" by blast
  then have "copy_label l = dropWhile isWhiteSpace y @ ''(copy)''"
    by (simp add: copy_label_def js_trim_copy_suffix)
  moreover have "dropWhile isWhiteSpace (dropWhile isWhiteSpace y) = dropWhile isWhiteSpace y"
    by simp
  ultimately show ?thesis by blast
qed

lemma copy_label_of_shape:
  assumes "dropWhile isWhiteSpace x = x"
  shows "copy_label (x @ ''(copy)'') = x @ ''(copy)''"
proof -
  have "replace_copy_copy ((x @ ''(copy)'') @ '' (copy)'') = x @ ''(copy)''"
    by (simp add: replace_copy_copy_def copy_copy_pattern_def matches_ci_def)
  then show ?thesis
    using assms by (simp add: copy_label_def js_trim_copy_suffix)
qed

lemma copy_label_idem: "copy_label (copy_label l) = copy_label l"
  using copy_label_shape [of l] copy_label_of_shape by auto


text \<open>The label of a clone, written out for the labels without a marker and for those
  that end with the marker; the \<open>i\<close> flag lets a marker in capitals match too, and the
  pattern replaces one doubled marker only.\<close>

lemma copy_label_examples:
  "copy_label ''Name (COPY)'' = ''Name (copy)''"
  "copy_label ''Name (copy) (copy)'' = ''Name (copy) (copy)''"
  "copy_label ''  Name'' = ''Name (copy)''"
  by (simp_all add: copy_label_def replace_copy_copy_def copy_copy_pattern_def matches_ci_def
      js_trim_def isWhiteSpace_def)















section \<open>Properties of the response route\<close>

subsection \<open>The loop over the fields\<close>

lemma fields_forEach_appends:
  "fields_forEach dp answers fs (is, ps) =
     (is @ issues_added dp answers fs, ps @ answers_added dp answers fs)"
proof (induction fs arbitrary: "is" ps)
  case Nil
  then show ?case by (simp add: issues_added_def answers_added_def)
next
  case (Cons f fs)
  show ?case
    by (cases "process_field dp answers f")
      (simp_all add: Cons.IH issues_added_def answers_added_def)
qed

lemma validate_eq:
  "validate dp fs answers =
     (foreign_issues fs answers @ issues_added dp answers fs
        @ required_rescan fs (answers_added dp answers fs),
      answers_added dp answers fs)"
  by (simp add: validate_def fields_forEach_appends)

subsection \<open>Number fields\<close>

lemma js_trim_42: "js_trim ''42'' = ''42''"
  by (simp add: js_trim_def isWhiteSpace_def)

lemma js_trim_abc: "js_trim ''abc'' = ''abc''"
  by (simp add: js_trim_def isWhiteSpace_def)

lemma js_Number_42: "js_Number ''42'' = Fin 42"
  by (simp add: js_Number_def js_trim_42 unsigned_literal_def unsigned_decimal_def isDigit_def
      parse_exponent_def scale10_def digits_value_def digit_of_def round_to_double_def
      nearest_double_def binary_exponent_def pow2_def round_half_even_def bit_length.simps
      Let_def)

lemma js_Number_abc: "js_Number ''abc'' = NaN"
  by (simp add: js_Number_def js_trim_abc unsigned_literal_def unsigned_decimal_def isDigit_def)

lemma number_case_42: "number_case required (VStr ''42'') = PushAnswer (VNum (Fin 42))"
  by (simp add: js_trim_42 js_Number_42)

lemma number_case_abc: "number_case required (VStr ''abc'') = number_missing required"
  by (simp add: js_trim_abc js_Number_abc)

lemma find_single_answer:
  "find (\<lambda>entry. a_fieldId entry = d_id f) [answer (d_id f) v] = Some (answer (d_id f) v)"
  by (simp add: answer_def)

lemma process_field_single:
  "process_field dp [answer (d_id f) v] f = field_switch dp f v"
  by (simp add: process_field_def answer_def)

lemma validate_single:
  "validate dp [f] [answer (d_id f) v] =
     (outcome_issues (d_id f) (field_switch dp f v)
        @ required_rescan [f] (outcome_answers (d_id f) (field_switch dp f v)),
      outcome_answers (d_id f) (field_switch dp f v))"
  by (simp add: validate_eq foreign_issues_def issues_added_def answers_added_def
      process_field_def answer_def)

lemma field_switch_number:
  "d_type f = ''number'' \<Longrightarrow> field_switch dp f v = number_case (d_required f) v"
  by (simp add: field_switch_def)

lemma field_switch_checkbox:
  "d_type f = ''checkbox'' \<Longrightarrow>
     field_switch dp f v = checkbox_case (d_required f) (parseOptions (d_options f)) v"
  by (simp add: field_switch_def)

text \<open>What the validation holds for one field of a form: the outcome of the loop for
  that field, followed by the issue of the re-scan when the field is required and nothing
  was persisted for it.\<close>

lemma outcome_issues_id: "i \<in> set (outcome_issues fid out) \<Longrightarrow> i_fieldId i = fid"
  by (cases out) (auto simp: issue_def)

lemma outcome_answers_id: "p \<in> set (outcome_answers fid out) \<Longrightarrow> pa_fieldId p = fid"
  by (cases out) auto

lemma issues_added_other:
  "fid \<notin> set (map d_id fs) \<Longrightarrow>
     filter (\<lambda>i. i_fieldId i = fid) (issues_added dp answers fs) = []"
  by (auto simp: issues_added_def filter_empty_conv dest!: outcome_issues_id)

lemma answers_added_other:
  "fid \<notin> set (map d_id fs) \<Longrightarrow>
     filter (\<lambda>p. pa_fieldId p = fid) (answers_added dp answers fs) = []"
  by (auto simp: answers_added_def filter_empty_conv dest!: outcome_answers_id)

lemma outcome_issues_filter:
  "filter (\<lambda>i. i_fieldId i = fid') (outcome_issues fid out)
     = (if fid = fid' then outcome_issues fid out else [])"
  by (cases out) (auto simp: issue_def)

lemma outcome_answers_filter:
  "filter (\<lambda>p. pa_fieldId p = fid') (outcome_answers fid out)
     = (if fid = fid' then outcome_answers fid out else [])"
  by (cases out) auto

lemma issues_added_Cons:
  "issues_added dp answers (g # fs)
     = outcome_issues (d_id g) (process_field dp answers g) @ issues_added dp answers fs"
  by (simp add: issues_added_def)

lemma answers_added_Cons:
  "answers_added dp answers (g # fs)
     = outcome_answers (d_id g) (process_field dp answers g) @ answers_added dp answers fs"
  by (simp add: answers_added_def)

lemma issues_added_field:
  assumes "distinct (map d_id fs)" and "f \<in> set fs"
  shows "filter (\<lambda>i. i_fieldId i = d_id f) (issues_added dp answers fs)
           = outcome_issues (d_id f) (process_field dp answers f)"
  using assms
proof (induction fs)
  case Nil
  then show ?case by simp
next
  case (Cons g fs)
  show ?case
  proof (cases "g = f")
    case True
    with Cons.prems have "d_id f \<notin> set (map d_id fs)" by simp
    with True show ?thesis
      by (simp add: issues_added_Cons outcome_issues_filter issues_added_other)
  next
    case False
    with Cons.prems have "f \<in> set fs" and "d_id g \<noteq> d_id f" by auto
    with Cons show ?thesis
      by (simp add: issues_added_Cons outcome_issues_filter)
  qed
qed

lemma answers_added_field:
  assumes "distinct (map d_id fs)" and "f \<in> set fs"
  shows "filter (\<lambda>p. pa_fieldId p = d_id f) (answers_added dp answers fs)
           = outcome_answers (d_id f) (process_field dp answers f)"
  using assms
proof (induction fs)
  case Nil
  then show ?case by simp
next
  case (Cons g fs)
  show ?case
  proof (cases "g = f")
    case True
    with Cons.prems have "d_id f \<notin> set (map d_id fs)" by simp
    with True show ?thesis
      by (simp add: answers_added_Cons outcome_answers_filter answers_added_other)
  next
    case False
    with Cons.prems have "f \<in> set fs" and "d_id g \<noteq> d_id f" by auto
    with Cons show ?thesis
      by (simp add: answers_added_Cons outcome_answers_filter)
  qed
qed

lemma foreign_issues_field:
  "f \<in> set fs \<Longrightarrow> filter (\<lambda>i. i_fieldId i = d_id f) (foreign_issues fs answers) = []"
  by (auto simp: foreign_issues_def filter_empty_conv issue_def)

lemma required_rescan_Cons:
  "required_rescan (g # fs) ps
     = (if d_required g \<and> find (\<lambda>p. pa_fieldId p = d_id g) ps = None
        then [issue (d_id g) ''Required field is missing''] else [])
       @ required_rescan fs ps"
  by (simp add: required_rescan_def)

lemma required_rescan_other:
  "fid \<notin> set (map d_id fs) \<Longrightarrow>
     filter (\<lambda>i. i_fieldId i = fid) (required_rescan fs ps) = []"
  by (auto simp: required_rescan_def filter_empty_conv issue_def)

lemma required_rescan_field:
  assumes "distinct (map d_id fs)" and "f \<in> set fs"
  shows "filter (\<lambda>i. i_fieldId i = d_id f) (required_rescan fs ps)
           = (if d_required f \<and> find (\<lambda>p. pa_fieldId p = d_id f) ps = None
              then [issue (d_id f) ''Required field is missing''] else [])"
  using assms
proof (induction fs)
  case Nil
  then show ?case by simp
next
  case (Cons g fs)
  show ?case
  proof (cases "g = f")
    case True
    with Cons.prems have "d_id f \<notin> set (map d_id fs)" by simp
    with True show ?thesis
      by (simp add: required_rescan_Cons required_rescan_other issue_def)
  next
    case False
    with Cons.prems have "f \<in> set fs" and "d_id g \<noteq> d_id f" by auto
    with Cons show ?thesis
      by (simp add: required_rescan_Cons issue_def)
  qed
qed

lemma find_None_filter:
  "find (\<lambda>p. pa_fieldId p = fid) ps = None \<longleftrightarrow> filter (\<lambda>p. pa_fieldId p = fid) ps = []"
  by (induction ps) auto

lemma validate_field_view:
  assumes "distinct (map d_id fs)" and "f \<in> set fs"
  shows "filter (\<lambda>i. i_fieldId i = d_id f) (fst (validate dp fs answers))
           = outcome_issues (d_id f) (process_field dp answers f)
             @ (if d_required f \<and> outcome_answers (d_id f) (process_field dp answers f) = []
                then [issue (d_id f) ''Required field is missing''] else [])"
    and "filter (\<lambda>p. pa_fieldId p = d_id f) (snd (validate dp fs answers))
           = outcome_answers (d_id f) (process_field dp answers f)"
  using assms
  by (simp_all add: validate_eq foreign_issues_field issues_added_field answers_added_field
      required_rescan_field find_None_filter)

lemma validate_field_member:
  assumes "f \<in> set fs"
  shows "set (outcome_issues (d_id f) (process_field dp answers f))
           \<subseteq> set (fst (validate dp fs answers))"
    and "set (outcome_answers (d_id f) (process_field dp answers f))
           \<subseteq> set (snd (validate dp fs answers))"
  using assms by (auto simp: validate_eq issues_added_def answers_added_def)


lemma process_field_number:
  assumes "d_type f = ''number''"
    and "find (\<lambda>entry. a_fieldId entry = d_id f) answers = Some a"
  shows "process_field dp answers f = number_case (d_required f) (a_value a)"
  using assms by (simp add: process_field_def field_switch_number)

text \<open>
  C2. For a number field of any form and the answer the route finds for it in any list
  of answers: the string \<open>42\<close> is persisted as the number 42; the string \<open>abc\<close> on
  a required field takes the branch with the message \<open>Number is required\<close>, and on a
  field that is not required the branch with \<open>Number could not be parsed\<close>. When the
  ids of the form's fields are distinct, the issues and the persisted answers of that
  field are exactly: the number 42 and no issue; \<open>Number is required\<close> followed by
  what the re-scan of the required fields appends, and no answer;
  \<open>Number could not be parsed\<close> alone, and no answer.
\<close>

theorem number_field_coercion:
  assumes "f \<in> set fs" and "d_type f = ''number''"
    and "find (\<lambda>entry. a_fieldId entry = d_id f) answers = Some a"
  shows "(a_value a = VStr ''42'' \<longrightarrow>
            process_field dp answers f = PushAnswer (VNum (Fin 42))
            \<and> \<lparr> pa_fieldId = d_id f, pa_value = VNum (Fin 42) \<rparr>
                 \<in> set (snd (validate dp fs answers))
            \<and> (distinct (map d_id fs) \<longrightarrow>
                 filter (\<lambda>p. pa_fieldId p = d_id f) (snd (validate dp fs answers))
                   = [\<lparr> pa_fieldId = d_id f, pa_value = VNum (Fin 42) \<rparr>]
                 \<and> filter (\<lambda>i. i_fieldId i = d_id f) (fst (validate dp fs answers)) = []))
       \<and> (a_value a = VStr ''abc'' \<and> d_required f \<longrightarrow>
            process_field dp answers f = AddIssue ''Number is required''
            \<and> issue (d_id f) ''Number is required'' \<in> set (fst (validate dp fs answers))
            \<and> (distinct (map d_id fs) \<longrightarrow>
                 filter (\<lambda>i. i_fieldId i = d_id f) (fst (validate dp fs answers))
                   = [issue (d_id f) ''Number is required'',
                      issue (d_id f) ''Required field is missing'']
                 \<and> filter (\<lambda>p. pa_fieldId p = d_id f) (snd (validate dp fs answers)) = []))
       \<and> (a_value a = VStr ''abc'' \<and> \<not> d_required f \<longrightarrow>
            process_field dp answers f = AddIssue ''Number could not be parsed''
            \<and> issue (d_id f) ''Number could not be parsed'' \<in> set (fst (validate dp fs answers))
            \<and> (distinct (map d_id fs) \<longrightarrow>
                 filter (\<lambda>i. i_fieldId i = d_id f) (fst (validate dp fs answers))
                   = [issue (d_id f) ''Number could not be parsed'']
                 \<and> filter (\<lambda>p. pa_fieldId p = d_id f) (snd (validate dp fs answers)) = []))"
proof -
  note pf = process_field_number [OF assms(2,3), of dp]
  note mem = validate_field_member [OF assms(1), of dp answers]
  have c42: ?thesis if v: "a_value a = VStr ''42''"
  proof -
    have out: "process_field dp answers f = PushAnswer (VNum (Fin 42))"
      unfolding pf v by (rule number_case_42)
    from mem(2) have "\<lparr> pa_fieldId = d_id f, pa_value = VNum (Fin 42) \<rparr>
        \<in> set (snd (validate dp fs answers))"
      unfolding out by simp
    moreover have "filter (\<lambda>p. pa_fieldId p = d_id f) (snd (validate dp fs answers))
                   = [\<lparr> pa_fieldId = d_id f, pa_value = VNum (Fin 42) \<rparr>]
                 \<and> filter (\<lambda>i. i_fieldId i = d_id f) (fst (validate dp fs answers)) = []"
      if "distinct (map d_id fs)"
      using validate_field_view [OF that assms(1), of dp answers] unfolding out by simp
    ultimately show ?thesis using v out by simp
  qed
  have creq: ?thesis if v: "a_value a = VStr ''abc''" and r: "d_required f"
  proof -
    have out: "process_field dp answers f = AddIssue ''Number is required''"
      unfolding pf v using r by (simp add: number_case_abc number_missing_def del: number_case.simps)
    from mem(1) have "issue (d_id f) ''Number is required'' \<in> set (fst (validate dp fs answers))"
      unfolding out by simp
    moreover have "filter (\<lambda>i. i_fieldId i = d_id f) (fst (validate dp fs answers))
                   = [issue (d_id f) ''Number is required'',
                      issue (d_id f) ''Required field is missing'']
                 \<and> filter (\<lambda>p. pa_fieldId p = d_id f) (snd (validate dp fs answers)) = []"
      if "distinct (map d_id fs)"
      using validate_field_view [OF that assms(1), of dp answers] r unfolding out by simp
    ultimately show ?thesis using v r out by simp
  qed
  have copt: ?thesis if v: "a_value a = VStr ''abc''" and r: "\<not> d_required f"
  proof -
    have out: "process_field dp answers f = AddIssue ''Number could not be parsed''"
      unfolding pf v using r by (simp add: number_case_abc number_missing_def del: number_case.simps)
    from mem(1) have "issue (d_id f) ''Number could not be parsed''
        \<in> set (fst (validate dp fs answers))"
      unfolding out by simp
    moreover have "filter (\<lambda>i. i_fieldId i = d_id f) (fst (validate dp fs answers))
                   = [issue (d_id f) ''Number could not be parsed'']
                 \<and> filter (\<lambda>p. pa_fieldId p = d_id f) (snd (validate dp fs answers)) = []"
      if "distinct (map d_id fs)"
      using validate_field_view [OF that assms(1), of dp answers] r unfolding out by simp
    ultimately show ?thesis using v r out by simp
  qed
  show ?thesis
  proof (cases "a_value a = VStr ''42''")
    case True
    then show ?thesis by (rule c42)
  next
    case n42: False
    show ?thesis
    proof (cases "a_value a = VStr ''abc''")
      case True
      then show ?thesis using creq copt by (cases "d_required f") blast+
    next
      case False
      with n42 show ?thesis by simp
    qed
  qed
qed

theorem number_field_coercion_witness:
  "number_field False \<in> set [short_text_field, number_field False]
   \<and> number_field True \<in> set [short_text_field, number_field True]
   \<and> d_type (number_field False) = ''number'' \<and> d_type (number_field True) = ''number''
   \<and> find (\<lambda>entry. a_fieldId entry = ''f1'')
        [answer ''f0'' (VStr ''hello''), answer ''f1'' (VStr ''42'')]
       = Some (answer ''f1'' (VStr ''42''))
   \<and> find (\<lambda>entry. a_fieldId entry = ''f1'')
        [answer ''f0'' (VStr ''hello''), answer ''f1'' (VStr ''abc'')]
       = Some (answer ''f1'' (VStr ''abc''))
   \<and> distinct (map d_id [short_text_field, number_field False])
   \<and> distinct (map d_id [short_text_field, number_field True])
   \<and> d_required (number_field True) \<and> \<not> d_required (number_field False)
   \<and> filter (\<lambda>p. pa_fieldId p = ''f1'')
        (snd (validate no_dates [short_text_field, number_field False]
                [answer ''f0'' (VStr ''hello''), answer ''f1'' (VStr ''42'')]))
       = [\<lparr> pa_fieldId = ''f1'', pa_value = VNum (Fin 42) \<rparr>]
   \<and> filter (\<lambda>i. i_fieldId i = ''f1'')
        (fst (validate no_dates [short_text_field, number_field True]
                [answer ''f0'' (VStr ''hello''), answer ''f1'' (VStr ''abc'')]))
       = [issue ''f1'' ''Number is required'', issue ''f1'' ''Required field is missing'']
   \<and> filter (\<lambda>i. i_fieldId i = ''f1'')
        (fst (validate no_dates [short_text_field, number_field False]
                [answer ''f0'' (VStr ''hello''), answer ''f1'' (VStr ''abc'')]))
       = [issue ''f1'' ''Number could not be parsed'']"
proof -
  let ?a42 = "[answer ''f0'' (VStr ''hello''), answer ''f1'' (VStr ''42'')]"
  let ?aabc = "[answer ''f0'' (VStr ''hello''), answer ''f1'' (VStr ''abc'')]"
  have m: "number_field r \<in> set [short_text_field, number_field r]" for r
    by simp
  have t: "d_type (number_field r) = ''number''" for r
    by (simp add: number_field_def)
  have i: "d_id (number_field r) = ''f1''" and r: "d_required (number_field r) = r" for r
    by (simp_all add: number_field_def)
  have f42: "find (\<lambda>entry. a_fieldId entry = d_id (number_field r)) ?a42
      = Some (answer ''f1'' (VStr ''42''))" for r
    by (simp add: answer_def i)
  have fabc: "find (\<lambda>entry. a_fieldId entry = d_id (number_field r)) ?aabc
      = Some (answer ''f1'' (VStr ''abc''))" for r
    by (simp add: answer_def i)
  have d: "distinct (map d_id [short_text_field, number_field r])" for r
    by (simp add: short_text_field_def i)
  have v: "a_value (answer fid x) = x" for fid x
    by (simp add: answer_def)
  from number_field_coercion [OF m [of False] t [of False] f42 [of False], where dp = no_dates]
       number_field_coercion [OF m [of True] t [of True] fabc [of True], where dp = no_dates]
       number_field_coercion [OF m [of False] t [of False] fabc [of False], where dp = no_dates]
       m t f42 [of False] fabc [of False] d i r v
  show ?thesis
    by (simp del: validate_def)
qed

subsection \<open>Answers for fields outside the form\<close>

lemma number_case_messages:
  "number_case required v = AddIssue m \<Longrightarrow>
     m = ''Number is required'' \<or> m = ''Number could not be parsed''"
  by (cases v) (auto simp: number_missing_def Let_def split: if_splits)

lemma process_field_not_foreign:
  assumes "process_field dp answers f = AddIssue m"
  shows "m \<noteq> ''Field does not belong to this form''"
proof (cases "d_type f = ''number''")
  case True
  with assms have "m = ''Required field is missing'' \<or> m = ''Number is required''
      \<or> m = ''Number could not be parsed''"
    by (auto simp: process_field_def field_switch_number dest: number_case_messages
        split: option.splits if_splits)
  then show ?thesis by auto
next
  case False
  with assms show ?thesis
    by (auto simp: process_field_def field_switch_def text_case_def email_case_def
        dropdown_case_def checkbox_case_def date_case_def Let_def
        split: option.splits if_splits)
qed

lemma issues_added_not_foreign:
  "filter (\<lambda>i. i_message i = foreign_message) (issues_added dp answers fs) = []"
proof -
  have "i_message i \<noteq> foreign_message" if "i \<in> set (issues_added dp answers fs)" for i
  proof -
    from that obtain f where "i \<in> set (outcome_issues (d_id f) (process_field dp answers f))"
      by (auto simp: issues_added_def)
    then obtain m where "process_field dp answers f = AddIssue m" and "i = issue (d_id f) m"
      by (cases "process_field dp answers f") auto
    with process_field_not_foreign [of dp answers f m] show ?thesis
      by (simp add: issue_def foreign_message_def)
  qed
  then show ?thesis by (simp add: filter_empty_conv)
qed

lemma required_rescan_not_foreign:
  "filter (\<lambda>i. i_message i = foreign_message) (required_rescan fs ps) = []"
  by (auto simp: filter_empty_conv required_rescan_def issue_def foreign_message_def)

lemma foreign_issues_all_foreign:
  "filter (\<lambda>i. i_message i = foreign_message) (foreign_issues fs answers)
     = foreign_issues fs answers"
  by (simp add: foreign_issues_def issue_def foreign_message_def filter_map comp_def)

lemma answers_added_ids:
  "set (map pa_fieldId (answers_added dp answers fs)) \<subseteq> set (map d_id fs)"
proof
  fix x assume "x \<in> set (map pa_fieldId (answers_added dp answers fs))"
  then obtain f p where f: "f \<in> set fs"
    and p: "p \<in> set (outcome_answers (d_id f) (process_field dp answers f))"
    and x: "x = pa_fieldId p"
    by (auto simp: answers_added_def)
  from p have "pa_fieldId p = d_id f"
    by (cases "process_field dp answers f") auto
  with f x show "x \<in> set (map d_id fs)" by auto
qed

text \<open>
  C5. The issues with the message \<open>Field does not belong to this form\<close> are exactly one
  per answer whose field id is not an id of the form's fields, in the order of the
  answers, whatever the other answers are; and no such field id occurs in the list of
  answers to persist.
\<close>

theorem foreign_answers_reported_never_persisted:
  "filter (\<lambda>i. i_message i = foreign_message) (fst (validate dp fs answers))
     = map (\<lambda>a. issue (a_fieldId a) foreign_message)
         (filter (\<lambda>a. a_fieldId a \<notin> set (map d_id fs)) answers)
   \<and> (\<forall>a \<in> set answers. a_fieldId a \<notin> set (map d_id fs) \<longrightarrow>
         issue (a_fieldId a) foreign_message \<in> set (fst (validate dp fs answers))
         \<and> a_fieldId a \<notin> set (map pa_fieldId (snd (validate dp fs answers))))"
proof -
  have 1: "filter (\<lambda>i. i_message i = foreign_message) (fst (validate dp fs answers))
     = map (\<lambda>a. issue (a_fieldId a) foreign_message)
         (filter (\<lambda>a. a_fieldId a \<notin> set (map d_id fs)) answers)"
    unfolding validate_eq fst_conv filter_append issues_added_not_foreign
      required_rescan_not_foreign foreign_issues_all_foreign
    by (simp add: foreign_issues_def foreign_message_def)
  have 2: "issue (a_fieldId a) foreign_message \<in> set (fst (validate dp fs answers))"
    if "a \<in> set answers" "a_fieldId a \<notin> set (map d_id fs)" for a
    using that unfolding validate_eq fst_conv
    by (auto simp: foreign_issues_def foreign_message_def)
  have 3: "a_fieldId a \<notin> set (map pa_fieldId (snd (validate dp fs answers)))"
    if "a_fieldId a \<notin> set (map d_id fs)" for a
    using that answers_added_ids [of dp answers fs] unfolding validate_eq snd_conv
    by blast
  from 1 2 3 show ?thesis by blast
qed

theorem foreign_answers_reported_never_persisted_witness:
  "answer ''zz'' (VStr ''hello'') \<in> set [answer ''f1'' (VStr ''42''), answer ''zz'' (VStr ''hello'')]
   \<and> a_fieldId (answer ''zz'' (VStr ''hello'')) \<notin> set (map d_id [number_field False])
   \<and> issue ''zz'' foreign_message
       \<in> set (fst (validate no_dates [number_field False]
                     [answer ''f1'' (VStr ''42''), answer ''zz'' (VStr ''hello'')]))
   \<and> ''zz'' \<notin> set (map pa_fieldId (snd (validate no_dates [number_field False]
                     [answer ''f1'' (VStr ''42''), answer ''zz'' (VStr ''hello'')])))"
proof -
  have m: "answer ''zz'' (VStr ''hello'')
             \<in> set [answer ''f1'' (VStr ''42''), answer ''zz'' (VStr ''hello'')]"
    by simp
  have n: "a_fieldId (answer ''zz'' (VStr ''hello'')) \<notin> set (map d_id [number_field False])"
    by (simp add: answer_def number_field_def)
  have i: "a_fieldId (answer ''zz'' (VStr ''hello'')) = ''zz''"
    by (simp add: answer_def)
  from foreign_answers_reported_never_persisted
         [of no_dates "[number_field False]"
             "[answer ''f1'' (VStr ''42''), answer ''zz'' (VStr ''hello'')]"] m n
  have "issue (a_fieldId (answer ''zz'' (VStr ''hello''))) foreign_message
       \<in> set (fst (validate no_dates [number_field False]
                     [answer ''f1'' (VStr ''42''), answer ''zz'' (VStr ''hello'')]))
   \<and> a_fieldId (answer ''zz'' (VStr ''hello''))
       \<notin> set (map pa_fieldId (snd (validate no_dates [number_field False]
                     [answer ''f1'' (VStr ''42''), answer ''zz'' (VStr ''hello'')])))"
    by blast
  with m n show ?thesis unfolding i by blast
qed

subsection \<open>The re-scan of the required fields\<close>

lemma parse_single_answer:
  "createResponseSchema (JObj [(''answers'', JArr [json_answer ''f1'' (JStr s)])])
     = Inr \<lparr> p_completionMs = None, p_answers = [answer ''f1'' (VStr s)],
             p_meta = None, p_honey = None \<rparr>"
  by (simp add: json_answer_def answer_def property_def)

text \<open>When every field is required and there is no answer at all, the loop over the fields
  and the re-scan each record \<open>Required field is missing\<close> for every field: the list of
  issues is twice as long as the list of fields.\<close>

lemma all_required_no_answers:
  assumes "list_all d_required fs"
  shows "validate dp fs [] =
           (map (\<lambda>f. issue (d_id f) ''Required field is missing'') fs
              @ map (\<lambda>f. issue (d_id f) ''Required field is missing'') fs, [])"
proof -
  have p: "process_field dp [] f = AddIssue ''Required field is missing''" if "f \<in> set fs" for f
    using that assms by (simp add: process_field_def list_all_iff)
  have i: "issues_added dp [] fs = map (\<lambda>f. issue (d_id f) ''Required field is missing'') fs"
    using p by (induction fs) (simp_all add: issues_added_def)
  have a: "answers_added dp [] fs = []"
    using p by (induction fs) (simp_all add: answers_added_def)
  have r: "required_rescan fs [] = map (\<lambda>f. issue (d_id f) ''Required field is missing'') fs"
    using assms by (simp add: required_rescan_def list_all_iff)
  show ?thesis
    by (simp add: validate_eq i a r foreign_issues_def)
qed

text \<open>
  C1, the route at a request it can receive. The form has one required number field
  and the request answers it with \<open>abc\<close>: the loop over the fields records
  \<open>Number is required\<close> for the field, and the re-scan, which only looks at the answers
  to persist, records \<open>Required field is missing\<close> for the same field, so the response
  lists two issues for it.
\<close>

theorem required_field_reported_twice:
  "POST no_dates (sample_database [number_field True])
         (sample_request (JArr [json_answer ''f1'' (JStr ''abc'')]))
     = (ValidationFailed_422
          [(''f1'', ''Number is required''), (''f1'', ''Required field is missing'')],
        sample_database [number_field True])"
proof -
  have v: "validate no_dates [number_field True] [answer ''f1'' (VStr ''abc'')]
             = ([issue ''f1'' ''Number is required'', issue ''f1'' ''Required field is missing''], [])"
    using validate_single [of no_dates "number_field True" "VStr ''abc''"]
    by (simp add: number_field_def field_switch_def number_case_abc number_missing_def
        required_rescan_def del: number_case.simps)
  show ?thesis
    by (simp add: POST_def sample_request_def sample_database_def parse_single_answer v
        issue_def del: createResponseSchema.simps)
qed

subsection \<open>Checkbox fields\<close>

text \<open>A selection of declared values is persisted as it is, without any issue, whether
  the field is required or not; a selection with an undeclared value on a field that is
  not required yields the one issue of the checkbox branch.\<close>

lemma parseOptions_checkbox_field:
  "parseOptions (d_options (checkbox_field required)) = [''a'', ''b'']"
  by (simp add: checkbox_field_def property_def List.map_filter_simps)

lemma checkbox_valid_selection:
  "validate dp [checkbox_field required] [answer ''f1'' (VArr [''a'', ''b''])]
     = ([], [\<lparr> pa_fieldId = ''f1'', pa_value = VArr [''a'', ''b''] \<rparr>])"
proof -
  have i: "d_id (checkbox_field required) = ''f1''"
    and t: "d_type (checkbox_field required) = ''checkbox''"
    by (simp_all add: checkbox_field_def)
  show ?thesis
    using validate_single [of dp "checkbox_field required" "VArr [''a'', ''b'']"]
    by (simp add: i field_switch_checkbox [OF t] parseOptions_checkbox_field
        checkbox_case_def required_rescan_def)
qed

lemma checkbox_invalid_selection_optional:
  "validate dp [checkbox_field False] [answer ''f1'' (VArr [''a'', ''z''])]
     = ([issue ''f1'' ''One or more options are invalid''], [])"
proof -
  have i: "d_id (checkbox_field False) = ''f1''"
    and t: "d_type (checkbox_field False) = ''checkbox''"
    and r: "\<not> d_required (checkbox_field False)"
    by (simp_all add: checkbox_field_def)
  show ?thesis
    using validate_single [of dp "checkbox_field False" "VArr [''a'', ''z'']"]
    by (simp add: i r field_switch_checkbox [OF t] parseOptions_checkbox_field
        checkbox_case_def required_rescan_def)
qed

text \<open>
  C3, the validation at a required checkbox field with the options \<open>a\<close> and \<open>b\<close> and
  the answer \<open>[a, z]\<close>: the checkbox branch records its one issue, and the re-scan of
  the required fields records a second issue for the same field.
\<close>

theorem checkbox_invalid_selection_required:
  "validate no_dates [checkbox_field True] [answer ''f1'' (VArr [''a'', ''z''])]
     = ([issue ''f1'' ''One or more options are invalid'',
         issue ''f1'' ''Required field is missing''], [])"
proof -
  have i: "d_id (checkbox_field True) = ''f1''"
    and t: "d_type (checkbox_field True) = ''checkbox''"
    and r: "d_required (checkbox_field True)"
    by (simp_all add: checkbox_field_def)
  show ?thesis
    using validate_single [of no_dates "checkbox_field True" "VArr [''a'', ''z'']"]
    by (simp add: i r field_switch_checkbox [OF t] parseOptions_checkbox_field
        checkbox_case_def required_rescan_def)
qed

subsection \<open>The request schema\<close>

lemma all_valid_length: "all_valid rs = Some vs \<Longrightarrow> length vs = length rs"
  by (induction rs arbitrary: vs rule: all_valid.induct) auto

lemma answers_schema_nonempty: "answers_schema p x = Inr answers \<Longrightarrow> answers \<noteq> []"
  by (cases "(p, x)" rule: answers_schema.cases)
    (auto simp: Let_def split: if_splits option.splits list.splits dest: all_valid_length)

lemma createResponseSchema_nonempty:
  "createResponseSchema j = Inr payload \<Longrightarrow> p_answers payload \<noteq> []"
  by (cases j) (auto simp: Let_def split: sum.splits dest: answers_schema_nonempty)

lemma answers_schema_empty:
  "answers_schema p (Some (JArr [])) = Inl [zissue p (Custom ''At least one answer is required'')]"
  by simp

lemma createResponseSchema_empty_answers:
  assumes "property kvs ''answers'' = Some (JArr [])"
  shows "\<exists>zs. createResponseSchema (JObj kvs) = Inl zs
           \<and> zissue [Key ''answers''] (Custom ''At least one answer is required'') \<in> set zs"
  using assms
  by (auto simp: Let_def issues_of_def split: sum.splits simp del: answers_schema.simps
      simp add: answers_schema_empty)

text \<open>
  C10. Whatever the request schema accepts has at least one answer, so the validation
  of the answers never runs on an empty list; and a request of a signed-in user whose body
  is an object with an empty \<open>answers\<close> array is answered by the schema failure, with
  the issue \<open>At least one answer is required\<close> at the path \<open>answers\<close>, and the
  database is left as it is.
\<close>

theorem empty_answers_rejected_by_schema:
  "(\<forall>payload. createResponseSchema j = Inr payload \<longrightarrow> p_answers payload \<noteq> [])
   \<and> (rq_sessionUser rq = Some user \<and> rq_body rq = Some (JObj kvs)
        \<and> property kvs ''answers'' = Some (JArr []) \<longrightarrow>
        (\<exists>zs. POST dp db rq = (SchemaFailed_422 zs, db)
           \<and> ([Key ''answers''], Custom ''At least one answer is required'') \<in> set zs))"
proof -
  have "\<exists>zs. POST dp db rq = (SchemaFailed_422 zs, db)
           \<and> ([Key ''answers''], Custom ''At least one answer is required'') \<in> set zs"
    if u: "rq_sessionUser rq = Some user" and b: "rq_body rq = Some (JObj kvs)"
      and e: "property kvs ''answers'' = Some (JArr [])"
  proof -
    from createResponseSchema_empty_answers [OF e] obtain zs
      where zs: "createResponseSchema (JObj kvs) = Inl zs"
        and m: "zissue [Key ''answers''] (Custom ''At least one answer is required'') \<in> set zs"
      by blast
    have "POST dp db rq = (SchemaFailed_422 (map (\<lambda>i. (z_path i, z_message i)) zs), db)"
      by (simp add: POST_def u b zs del: createResponseSchema.simps)
    moreover from m have "([Key ''answers''], Custom ''At least one answer is required'')
        \<in> set (map (\<lambda>i. (z_path i, z_message i)) zs)"
      by (force simp: zissue_def)
    ultimately show ?thesis by blast
  qed
  with createResponseSchema_nonempty show ?thesis by blast
qed

theorem empty_answers_rejected_by_schema_witness:
  "rq_sessionUser (sample_request (JArr [])) = Some ''u1''
   \<and> rq_body (sample_request (JArr [])) = Some (JObj [(''answers'', JArr [])])
   \<and> property [(''answers'', JArr [])] ''answers'' = Some (JArr [])
   \<and> (\<exists>zs. POST no_dates (sample_database [number_field True]) (sample_request (JArr []))
              = (SchemaFailed_422 zs, sample_database [number_field True])
          \<and> ([Key ''answers''], Custom ''At least one answer is required'') \<in> set zs)
   \<and> createResponseSchema (JObj [(''answers'', JArr [json_answer ''f1'' (JStr ''abc'')])])
       = Inr \<lparr> p_completionMs = None, p_answers = [answer ''f1'' (VStr ''abc'')],
               p_meta = None, p_honey = None \<rparr>
   \<and> p_answers \<lparr> p_completionMs = None, p_answers = [answer ''f1'' (VStr ''abc'')],
                 p_meta = None, p_honey = None \<rparr> \<noteq> []"
proof -
  have u: "rq_sessionUser (sample_request (JArr [])) = Some ''u1''"
    and b: "rq_body (sample_request (JArr [])) = Some (JObj [(''answers'', JArr [])])"
    by (simp_all add: sample_request_def)
  have e: "property [(''answers'', JArr [])] ''answers'' = Some (JArr [])"
    by (simp add: property_def)
  from empty_answers_rejected_by_schema
         [of "JObj [(''answers'', JArr [json_answer ''f1'' (JStr ''abc'')])]"
             "sample_request (JArr [])" "''u1''" "[(''answers'', JArr [])]" no_dates
             "sample_database [number_field True]"]
       u b e parse_single_answer [of "''abc''"]
  show ?thesis by blast
qed

subsection \<open>All or nothing\<close>

text \<open>
  C4. For a request that reaches the validation (signed-in user, body accepted by the
  schema, empty honey pot, form found): when the list of issues is not empty the response
  is the validation failure with all the issues and the database is unchanged; when it is
  empty, one response row carrying the whole list of normalized answers is appended to
  the database; so the database changes only when there is no issue.
\<close>

theorem submission_all_or_nothing:
  assumes "rq_sessionUser rq = Some user"
    and "createResponseSchema (case rq_body rq of Some j \<Rightarrow> j | None \<Rightarrow> JObj []) = Inr payload"
    and "\<not> (case p_honey payload of Some h \<Rightarrow> length (js_trim h) > 0 | None \<Rightarrow> False)"
    and "find (\<lambda>f. form_id f = rq_formId rq \<and> form_ownerId f = user) (db_forms db) = Some form"
    and "validate dp (form_fields form) (p_answers payload) = (issues, answersToPersist)"
  shows "(issues \<noteq> [] \<longrightarrow>
            POST dp db rq
              = (ValidationFailed_422 (map (\<lambda>i. (i_fieldId i, i_message i)) issues), db))
       \<and> (issues = [] \<longrightarrow>
            POST dp db rq
              = (Created_201
                   \<lparr> fr_formId = form_id form, fr_completionMs = p_completionMs payload,
                     fr_metadata = metadata_of rq payload, fr_answers = answersToPersist \<rparr>,
                 db\<lparr> db_responses := db_responses db @
                   [\<lparr> fr_formId = form_id form, fr_completionMs = p_completionMs payload,
                      fr_metadata = metadata_of rq payload,
                      fr_answers = answersToPersist \<rparr>] \<rparr>))
       \<and> (snd (POST dp db rq) \<noteq> db \<longrightarrow> issues = [])"
proof -
  have rejected: "POST dp db rq
      = (ValidationFailed_422 (map (\<lambda>i. (i_fieldId i, i_message i)) issues), db)"
    if "issues \<noteq> []"
    using assms that
    by (simp add: POST_def del: createResponseSchema.simps)
  have accepted: "POST dp db rq
              = (Created_201
                   \<lparr> fr_formId = form_id form, fr_completionMs = p_completionMs payload,
                     fr_metadata = metadata_of rq payload, fr_answers = answersToPersist \<rparr>,
                 db\<lparr> db_responses := db_responses db @
                   [\<lparr> fr_formId = form_id form, fr_completionMs = p_completionMs payload,
                      fr_metadata = metadata_of rq payload,
                      fr_answers = answersToPersist \<rparr>] \<rparr>)"
    if "issues = []"
    using assms that
    by (simp add: POST_def Let_def del: createResponseSchema.simps)
  from rejected have "snd (POST dp db rq) \<noteq> db \<longrightarrow> issues = []"
    by (cases "issues = []") simp_all
  with rejected accepted show ?thesis by blast
qed

text \<open>On every request the handler either leaves the database as it is or appends the
  one response it reports as created.\<close>

lemma POST_database_frame:
  "snd (POST dp db rq) = db
   \<or> (\<exists>created. POST dp db rq
          = (Created_201 created, db\<lparr> db_responses := db_responses db @ [created] \<rparr>))"
  by (simp add: POST_def Let_def split: option.splits sum.splits prod.splits
      del: createResponseSchema.simps)

theorem submission_all_or_nothing_witness:
  "rq_sessionUser (sample_request (JArr [json_answer ''f1'' (JStr ''42'')])) = Some ''u1''
   \<and> POST no_dates (sample_database [number_field False])
            (sample_request (JArr [json_answer ''f1'' (JStr ''42'')]))
       = (Created_201
            \<lparr> fr_formId = ''form1'', fr_completionMs = None, fr_metadata = None,
              fr_answers = [\<lparr> pa_fieldId = ''f1'', pa_value = VNum (Fin 42) \<rparr>] \<rparr>,
          (sample_database [number_field False])\<lparr> db_responses :=
            [\<lparr> fr_formId = ''form1'', fr_completionMs = None, fr_metadata = None,
               fr_answers = [\<lparr> pa_fieldId = ''f1'', pa_value = VNum (Fin 42) \<rparr>] \<rparr>] \<rparr>)
   \<and> POST no_dates (sample_database [number_field False])
            (sample_request (JArr [json_answer ''f1'' (JStr ''abc'')]))
       = (ValidationFailed_422 [(''f1'', ''Number could not be parsed'')],
          sample_database [number_field False])"
proof -
  let ?db = "sample_database [number_field False]"
  let ?form = "\<lparr> form_id = ''form1'', form_ownerId = ''u1'', form_fields = [number_field False] \<rparr>"
  let ?payload = "\<lambda>s. \<lparr> p_completionMs = None, p_answers = [answer ''f1'' (VStr s)],
                   p_meta = None, p_honey = None \<rparr>"
  have u: "rq_sessionUser (sample_request a) = Some ''u1''" for a
    by (simp add: sample_request_def)
  have p: "createResponseSchema
             (case rq_body (sample_request (JArr [json_answer ''f1'' (JStr s)])) of
                Some j \<Rightarrow> j | None \<Rightarrow> JObj [])
           = Inr (?payload s)" for s
    by (simp add: sample_request_def parse_single_answer del: createResponseSchema.simps)
  have h: "\<not> (case p_honey (?payload s) of
               Some h \<Rightarrow> length (js_trim h) > 0 | None \<Rightarrow> False)" for s
    by simp
  have f: "find (\<lambda>f. form_id f = rq_formId (sample_request a) \<and> form_ownerId f = ''u1'')
             (db_forms ?db) = Some ?form" for a
    by (simp add: sample_request_def sample_database_def)
  have t: "d_type (number_field False) = ''number''"
    and i: "d_id (number_field False) = ''f1''"
    and r: "\<not> d_required (number_field False)"
    by (simp_all add: number_field_def)
  have v42: "validate no_dates (form_fields ?form) (p_answers (?payload ''42''))
             = ([], [\<lparr> pa_fieldId = ''f1'', pa_value = VNum (Fin 42) \<rparr>])"
    using validate_single [of no_dates "number_field False" "VStr ''42''"]
    by (simp add: i r field_switch_number [OF t] number_case_42 required_rescan_def
        del: number_case.simps)
  have vabc: "validate no_dates (form_fields ?form) (p_answers (?payload ''abc''))
             = ([issue ''f1'' ''Number could not be parsed''], [])"
    using validate_single [of no_dates "number_field False" "VStr ''abc''"]
    by (simp add: i r field_switch_number [OF t] number_case_abc number_missing_def
        required_rescan_def del: number_case.simps)
  have e: "db_responses ?db = []"
    by (simp add: sample_database_def)
  have m: "metadata_of (sample_request a) (?payload s) = None" for a s
    by (simp add: metadata_of_def sample_request_def ipAddress_of_def or_else_def)
  from submission_all_or_nothing [OF u p h f v42] submission_all_or_nothing [OF u p h f vabc]
    u e m
  show ?thesis
    by (simp add: issue_def)
qed

subsection \<open>The email pattern\<close>

text \<open>\<open>emailRegex_test\<close> accepts exactly the strings the regular expression
  describes: a local part, \<open>@\<close>, a part, a dot and a part, each non-empty and free of
  white space and \<open>@\<close>.\<close>

lemma email_char_dot: "email_char CHR ''.''" and email_char_at: "\<not> email_char CHR ''@''"
  by (simp_all add: email_char_def isWhiteSpace_def)

lemma emailRegex_test_iff:
  "emailRegex_test s \<longleftrightarrow>
     (\<exists>a b c. s = a @ CHR ''@'' # b @ CHR ''.'' # c \<and> a \<noteq> [] \<and> b \<noteq> [] \<and> c \<noteq> []
        \<and> list_all email_char a \<and> list_all email_char b \<and> list_all email_char c)"
proof
  assume t: "emailRegex_test s"
  define a where "a = takeWhile email_char s"
  from t obtain d where rest: "dropWhile email_char s = CHR ''@'' # d"
    and a: "a \<noteq> []" and d: "list_all email_char d"
    and ex: "list_ex (\<lambda>i. d ! i = CHR ''.'') [1 ..< length d - 1]"
    by (auto simp: emailRegex_test_def Let_def a_def split: list.splits)
  from ex obtain i where i: "1 \<le> i" "i < length d - 1" "d ! i = CHR ''.''"
    by (auto simp: list_ex_iff)
  then have il: "i < length d" by simp
  have s: "s = a @ CHR ''@'' # d"
    using takeWhile_dropWhile_id [of email_char s] by (simp add: a_def rest)
  have dd: "d = take i d @ CHR ''.'' # drop (Suc i) d"
    using id_take_nth_drop [OF il] i(3) by simp
  have "s = a @ CHR ''@'' # take i d @ CHR ''.'' # drop (Suc i) d"
    using s dd by simp
  moreover have "take i d \<noteq> []" using i(1) il by auto
  moreover have "drop (Suc i) d \<noteq> []" using i(2) by simp
  moreover have "list_all email_char a"
    by (simp add: a_def list_all_iff) (meson set_takeWhileD)
  moreover have "list_all email_char (take i d)" "list_all email_char (drop (Suc i) d)"
    using d by (auto simp: list_all_iff dest: in_set_takeD in_set_dropD)
  ultimately show "\<exists>a b c. s = a @ CHR ''@'' # b @ CHR ''.'' # c \<and> a \<noteq> [] \<and> b \<noteq> [] \<and> c \<noteq> []
        \<and> list_all email_char a \<and> list_all email_char b \<and> list_all email_char c"
    using a by blast
next
  assume "\<exists>a b c. s = a @ CHR ''@'' # b @ CHR ''.'' # c \<and> a \<noteq> [] \<and> b \<noteq> [] \<and> c \<noteq> []
        \<and> list_all email_char a \<and> list_all email_char b \<and> list_all email_char c"
  then obtain a b c where s: "s = a @ CHR ''@'' # b @ CHR ''.'' # c"
    and ne: "a \<noteq> []" "b \<noteq> []" "c \<noteq> []"
    and all: "list_all email_char a" "list_all email_char b" "list_all email_char c"
    by blast
  have tw: "takeWhile email_char s = a"
    using all(1) by (simp add: s list_all_iff email_char_at)
  have dw: "dropWhile email_char s = CHR ''@'' # b @ CHR ''.'' # c"
    using all(1) by (simp add: s list_all_iff email_char_at)
  have d: "list_all email_char (b @ CHR ''.'' # c)"
    using all by (simp add: email_char_dot)
  have lb: "1 \<le> length b"
    using ne(2) by (cases b) simp_all
  have lc: "length b < length (b @ CHR ''.'' # c) - 1"
    using ne(3) by (cases c) simp_all
  have "length b \<in> set [1 ..< length (b @ CHR ''.'' # c) - 1]"
    using lb lc unfolding set_upt atLeastLessThan_iff by blast
  moreover have "(b @ CHR ''.'' # c) ! length b = CHR ''.''"
    by simp
  ultimately have "list_ex (\<lambda>i. (b @ CHR ''.'' # c) ! i = CHR ''.'') [1 ..< length (b @ CHR ''.'' # c) - 1]"
    unfolding list_ex_iff by blast
  with tw dw d ne show "emailRegex_test s"
    by (simp add: emailRegex_test_def Let_def)
qed

end
